theory Spec2Isabelle
  imports Main "HOL-Library.Word" "HOL-Library.Finite_Map"
begin

section \<open>zswap: a compressed cache for swap pages (mm/zswap.c)\<close>

text \<open>
  A shallow embedding of \<^verbatim>\<open>mm/zswap.c\<close>, built with
  \<^verbatim>\<open>CONFIG_ZSWAP_ENABLE_WRITEBACK\<close>. One thread of control is modelled: a
  function is the sequential run of the C function, every lock region taken in
  one piece. What the kernel decides outside this file (the slab allocator,
  zsmalloc, the compression transform, the swap cache, the block layer) enters
  each function as an argument holding the outcome of the call.
\<close>

subsection \<open>Constants\<close>

text \<open>
  Modelled from the spec: \<^verbatim>\<open>PAGE_SIZE\<close> is a macro of the kernel headers, which
  are not part of the sources; the specification speaks of 4 KiB pages.
\<close>

definition PAGE_SIZE :: nat where
  "PAGE_SIZE = 4096"

text \<open>The errno values of \<^verbatim>\<open>include/uapi/asm-generic/errno-base.h\<close>.\<close>

definition E2BIG :: int where "E2BIG = 7"
definition ENOMEM :: int where "ENOMEM = 12"
definition EEXIST :: int where "EEXIST = 17"
definition ENODEV :: int where "ENODEV = 19"
definition EINVAL :: int where "EINVAL = 22"

definition ZSWAP_MAX_OUTSTANDING_FLUSHES :: int where
  "ZSWAP_MAX_OUTSTANDING_FLUSHES = 64"

definition ZSWAP_TMPPAGE_POOL_PAGES :: nat where
  "ZSWAP_TMPPAGE_POOL_PAGES = 16"

subsection \<open>Data structures\<close>

type_synonym bytes = "8 word list"

text \<open>A \<^verbatim>\<open>struct zswap_entry *\<close> (an object of the entry cache) and a \<^verbatim>\<open>struct page *\<close>.\<close>

type_synonym eptr = nat
type_synonym pageptr = nat

text \<open>
  A fault stops the kernel: the dereference of a NULL tree pointer, or a
  \<^verbatim>\<open>BUG_ON\<close> that fires.
\<close>

datatype fault = NULL_DEREF | BUG

text \<open>
  \<^verbatim>\<open>struct zswap_entry\<close>. The \<^verbatim>\<open>rbnode\<close> and \<^verbatim>\<open>lru\<close> linkage of an entry
  is kept on the side of the tree: the entry is linked into the rbtree when the
  index maps an offset to it, and its \<^verbatim>\<open>lru\<close> node is non-empty when the
  tree's LRU list holds it. \<^verbatim>\<open>refcount\<close> is a C \<^verbatim>\<open>int\<close>, whose \<^verbatim>\<open>++\<close> and
  \<^verbatim>\<open>--\<close> wrap around in a kernel built with \<^verbatim>\<open>-fno-strict-overflow\<close>: a
  32-bit word, read signed.
\<close>

record zswap_entry =
  refcount :: "32 word"
  offset :: nat
  handle :: nat
  entry_length :: "32 word"

text \<open>
  A zsmalloc pool: the bytes behind each handle and the handles currently
  allocated. Handle 0 is the failure value of \<^verbatim>\<open>zs_malloc\<close>. Freeing a handle
  leaves its bytes in place, as memory does.
\<close>

record zs_pool =
  objs :: "nat \<Rightarrow> bytes"
  allocated :: "nat set"

text \<open>
  \<^verbatim>\<open>struct zswap_tree\<close>: the rbtree as a finite map from offset to entry, the
  LRU list from head to tail, the pool and the swap type. The spinlock has no
  state in a sequential run.
\<close>

record zswap_tree =
  rbroot :: "(nat, eptr) fmap"
  lru :: "eptr list"
  pool :: zs_pool
  swap_type :: nat

text \<open>
  The globals of the file. \<^verbatim>\<open>atomic_t\<close> is a 32-bit word, the \<^verbatim>\<open>u64\<close>
  statistics are 64-bit words, the tunables are \<^verbatim>\<open>unsigned int\<close>.
  \<^verbatim>\<open>entries\<close> is the memory behind the entry pointers and
  \<^verbatim>\<open>zswap_entry_cache\<close> the objects of the slab cache that are allocated.
  \<^verbatim>\<open>zswap_dstmem\<close> is the compression buffer of the running CPU and
  \<^verbatim>\<open>preempt_count\<close> counts the \<^verbatim>\<open>get_cpu_var\<close> not yet matched by a
  \<^verbatim>\<open>put_cpu_var\<close>.
\<close>

record zswap =
  zswap_pool_pages :: "32 word"
  zswap_stored_pages :: "32 word"
  zswap_outstanding_writebacks :: "32 word"
  zswap_pool_limit_hit :: "64 word"
  zswap_written_back_pages :: "64 word"
  zswap_reject_compress_poor :: "64 word"
  zswap_writeback_attempted :: "64 word"
  zswap_reject_tmppage_fail :: "64 word"
  zswap_reject_zsmalloc_fail :: "64 word"
  zswap_reject_kmemcache_fail :: "64 word"
  zswap_saved_by_writeback :: "64 word"
  zswap_duplicate_entry :: "64 word"
  zswap_max_pool_percent :: "32 word"
  zswap_max_compression_ratio :: "32 word"
  zswap_trees :: "nat \<Rightarrow> zswap_tree option"
  entries :: "eptr \<Rightarrow> zswap_entry"
  zswap_entry_cache :: "eptr set"
  zswap_dstmem :: bytes
  preempt_count :: int
  zswap_tmppage_list :: "pageptr list"

subsection \<open>Compression functions\<close>

text \<open>
  The per-CPU transform: each operation gives its return value and the bytes it
  wrote to the destination; the length it stores in \<^verbatim>\<open>*dlen\<close> is the number
  of bytes written.
\<close>

record crypto_comp =
  crypto_comp_compress :: "bytes \<Rightarrow> int \<times> bytes"
  crypto_comp_decompress :: "bytes \<Rightarrow> int \<times> bytes"

datatype comp_op = ZSWAP_COMPOP_COMPRESS | ZSWAP_COMPOP_DECOMPRESS

text \<open>Writing \<open>out\<close> at the start of a buffer that held \<open>old\<close>.\<close>

definition overwrite :: "bytes \<Rightarrow> bytes \<Rightarrow> bytes" where
  "overwrite out old = out @ drop (length out) old"

text \<open>
  \<^verbatim>\<open>zswap_comp_op\<close>: reads \<open>slen\<close> bytes of \<open>src\<close>, returns the return value,
  the destination buffer and \<^verbatim>\<open>*dlen\<close>. The \<^verbatim>\<open>get_cpu\<close> and \<^verbatim>\<open>put_cpu\<close> of
  the function cancel. The \<^verbatim>\<open>default\<close> case of the switch has no value of the
  enum to take it.
\<close>

definition zswap_comp_op ::
  "crypto_comp \<Rightarrow> comp_op \<Rightarrow> bytes \<Rightarrow> nat \<Rightarrow> bytes \<Rightarrow> int \<times> bytes \<times> 32 word" where
  "zswap_comp_op tfm op src slen dst =
     (case op of
        ZSWAP_COMPOP_COMPRESS \<Rightarrow>
          (case crypto_comp_compress tfm (take slen src) of
             (ret, out) \<Rightarrow> (ret, overwrite out dst, of_nat (length out)))
      | ZSWAP_COMPOP_DECOMPRESS \<Rightarrow>
          (case crypto_comp_decompress tfm (take slen src) of
             (ret, out) \<Rightarrow> (ret, overwrite out dst, of_nat (length out))))"

subsection \<open>Entry functions\<close>

text \<open>
  \<^verbatim>\<open>zswap_entry_cache_alloc\<close>: \<open>kmem\<close> is what \<^verbatim>\<open>kmem_cache_alloc\<close> returned.
  The object is not cleared: only the refcount is set.
\<close>

definition zswap_entry_cache_alloc :: "eptr option \<Rightarrow> zswap \<Rightarrow> eptr option \<times> zswap" where
  "zswap_entry_cache_alloc kmem g =
     (case kmem of
        None \<Rightarrow> (None, g)
      | Some e \<Rightarrow>
          (Some e,
           g\<lparr>entries := (entries g)(e := (entries g e)\<lparr>refcount := 1\<rparr>),
             zswap_entry_cache := insert e (zswap_entry_cache g)\<rparr>))"

definition zswap_entry_cache_free :: "eptr \<Rightarrow> zswap \<Rightarrow> zswap" where
  "zswap_entry_cache_free e g = g\<lparr>zswap_entry_cache := zswap_entry_cache g - {e}\<rparr>"

definition zswap_entry_get :: "eptr \<Rightarrow> zswap \<Rightarrow> zswap" where
  "zswap_entry_get e g =
     g\<lparr>entries := (entries g)(e := (entries g e)\<lparr>refcount := refcount (entries g e) + 1\<rparr>)\<rparr>"

definition zswap_entry_put :: "eptr \<Rightarrow> zswap \<Rightarrow> 32 word \<times> zswap" where
  "zswap_entry_put e g =
     (refcount (entries g e) - 1,
      g\<lparr>entries := (entries g)(e := (entries g e)\<lparr>refcount := refcount (entries g e) - 1\<rparr>)\<rparr>)"

subsection \<open>List functions\<close>

text \<open>
  \<^verbatim>\<open>list_del_init\<close> on the \<^verbatim>\<open>lru\<close> node of an entry: afterwards the node
  is empty, so the entry is on no list.
\<close>

definition list_del_init :: "eptr \<Rightarrow> eptr list \<Rightarrow> eptr list" where
  "list_del_init e l = removeAll e l"

subsection \<open>rbtree functions\<close>

definition zswap_rb_search :: "(nat, eptr) fmap \<Rightarrow> nat \<Rightarrow> eptr option" where
  "zswap_rb_search root off = fmlookup root off"

text \<open>
  \<^verbatim>\<open>zswap_rb_insert\<close>: the return value, the tree and \<^verbatim>\<open>*dupentry\<close>. The key
  is read from the entry.
\<close>

definition zswap_rb_insert ::
  "(nat, eptr) fmap \<Rightarrow> eptr \<Rightarrow> zswap \<Rightarrow> int \<times> (nat, eptr) fmap \<times> eptr option" where
  "zswap_rb_insert root e g =
     (case fmlookup root (offset (entries g e)) of
        Some myentry \<Rightarrow> (- EEXIST, root, Some myentry)
      | None \<Rightarrow> (0, fmupd (offset (entries g e)) e root, None))"

text \<open>\<^verbatim>\<open>rb_erase\<close> unlinks the node of the entry it is given.\<close>

definition rb_erase :: "eptr \<Rightarrow> (nat, eptr) fmap \<Rightarrow> (nat, eptr) fmap" where
  "rb_erase e root = fmfilter (\<lambda>k. fmlookup root k \<noteq> Some e) root"

text \<open>\<^verbatim>\<open>rb_first\<close>: the entry of the smallest offset.\<close>

definition rb_first :: "(nat, eptr) fmap \<Rightarrow> eptr option" where
  "rb_first root =
     (case sorted_list_of_fset (fmdom root) of [] \<Rightarrow> None | k # _ \<Rightarrow> fmlookup root k)"

subsection \<open>Per-CPU buffer\<close>

definition get_cpu_var :: "zswap \<Rightarrow> zswap" where
  "get_cpu_var g = g\<lparr>preempt_count := preempt_count g + 1\<rparr>"

definition put_cpu_var :: "zswap \<Rightarrow> zswap" where
  "put_cpu_var g = g\<lparr>preempt_count := preempt_count g - 1\<rparr>"

subsection \<open>zsmalloc callbacks\<close>

text \<open>
  \<^verbatim>\<open>zswap_max_pool_pages\<close>: \<^verbatim>\<open>totalram_pages\<close> is an \<^verbatim>\<open>unsigned long\<close> of the
  kernel, of \<open>LENGTH('l)\<close> bits; the product and the quotient are taken at that
  width and the result is cut to \<^verbatim>\<open>unsigned int\<close>.
\<close>

definition zswap_max_pool_pages :: "'l::len word \<Rightarrow> zswap \<Rightarrow> 32 word" where
  "zswap_max_pool_pages totalram_pages g =
     ucast ((ucast (zswap_max_pool_percent g) :: 'l word) * totalram_pages div 100)"

text \<open>
  \<^verbatim>\<open>zswap_alloc_page\<close>: \<open>mempool\<close> is what \<^verbatim>\<open>mempool_alloc\<close> returns when it
  is called. The comparison of the \<^verbatim>\<open>int\<close> counter with the \<^verbatim>\<open>unsigned int\<close>
  limit is unsigned.
\<close>

definition zswap_alloc_page ::
  "'l::len word \<Rightarrow> pageptr option \<Rightarrow> zswap \<Rightarrow> pageptr option \<times> zswap" where
  "zswap_alloc_page totalram_pages mempool g =
     (if zswap_max_pool_pages totalram_pages g \<le> zswap_pool_pages g
      then (None, g\<lparr>zswap_pool_limit_hit := zswap_pool_limit_hit g + 1\<rparr>)
      else (case mempool of
              None \<Rightarrow> (None, g)
            | Some page \<Rightarrow> (Some page, g\<lparr>zswap_pool_pages := zswap_pool_pages g + 1\<rparr>)))"

definition zswap_free_page :: "pageptr option \<Rightarrow> zswap \<Rightarrow> zswap" where
  "zswap_free_page page g =
     (case page of
        None \<Rightarrow> g
      | Some p \<Rightarrow> g\<lparr>zswap_pool_pages := zswap_pool_pages g - 1\<rparr>)"

subsection \<open>The packed allocator\<close>

text \<open>
  zsmalloc is outside the file. \<^verbatim>\<open>zs_malloc\<close> is given the handle the
  allocator chose (0 when it fails); \<^verbatim>\<open>zs_store\<close> is the
  \<^verbatim>\<open>zs_map_object\<close>, \<^verbatim>\<open>memcpy\<close>, \<^verbatim>\<open>zs_unmap_object\<close> sequence that fills
  an object.
\<close>

definition zs_malloc :: "nat \<Rightarrow> zs_pool \<Rightarrow> zs_pool" where
  "zs_malloc h p = (if h = 0 then p else p\<lparr>allocated := insert h (allocated p)\<rparr>)"

definition zs_free :: "nat \<Rightarrow> zs_pool \<Rightarrow> zs_pool" where
  "zs_free h p = p\<lparr>allocated := allocated p - {h}\<rparr>"

definition zs_store :: "nat \<Rightarrow> bytes \<Rightarrow> zs_pool \<Rightarrow> zs_pool" where
  "zs_store h buf p = p\<lparr>objs := (objs p)(h := buf)\<rparr>"

subsection \<open>Helpers\<close>

definition zswap_free_entry :: "zswap_tree \<Rightarrow> eptr \<Rightarrow> zswap \<Rightarrow> zswap_tree \<times> zswap" where
  "zswap_free_entry tree e g =
     (tree\<lparr>pool := zs_free (handle (entries g e)) (pool tree)\<rparr>,
      (zswap_entry_cache_free e g)\<lparr>zswap_stored_pages := zswap_stored_pages g - 1\<rparr>)"

subsection \<open>Writeback code\<close>

definition zswap_end_swap_write :: "zswap \<Rightarrow> zswap" where
  "zswap_end_swap_write g =
     g\<lparr>zswap_outstanding_writebacks := zswap_outstanding_writebacks g - 1,
       zswap_written_back_pages := zswap_written_back_pages g + 1\<rparr>"

datatype zswap_get_swap_ret =
  ZSWAP_SWAPCACHE_NEW | ZSWAP_SWAPCACHE_EXIST | ZSWAP_SWAPCACHE_NOMEM

text \<open>
  What the swap cache and the block layer answer to one call of
  \<^verbatim>\<open>zswap_writeback_entry\<close>: the outcome of \<^verbatim>\<open>zswap_get_swap_cache_page\<close>
  (decided by the swap cache alone), the bytes of the page it returned, and the
  return value of \<^verbatim>\<open>__swap_writepage\<close>.
\<close>

record swap_io =
  get_swap_cache_page :: zswap_get_swap_ret
  swap_cache_page :: bytes
  swap_writepage :: int

definition zswap_writeback_entry ::
  "crypto_comp \<Rightarrow> swap_io \<Rightarrow> zswap_tree \<Rightarrow> eptr \<Rightarrow> zswap \<Rightarrow> fault + (int \<times> zswap)" where
  "zswap_writeback_entry tfm io tree e g =
     (case get_swap_cache_page io of
        ZSWAP_SWAPCACHE_NOMEM \<Rightarrow> Inr (- ENOMEM, g)
      | ZSWAP_SWAPCACHE_EXIST \<Rightarrow> Inr (- EEXIST, g)
      | ZSWAP_SWAPCACHE_NEW \<Rightarrow>
          (case zswap_comp_op tfm ZSWAP_COMPOP_DECOMPRESS
                  (objs (pool tree) (handle (entries g e)))
                  (unat (entry_length (entries g e))) (swap_cache_page io) of
             (ret, dst, dlen) \<Rightarrow>
               if ret \<noteq> 0 then Inl BUG
               else if unat dlen \<noteq> PAGE_SIZE then Inl BUG
               else if swap_writepage io = 0
               then Inr (0, g\<lparr>zswap_outstanding_writebacks :=
                                 zswap_outstanding_writebacks g + 1\<rparr>)
               else Inr (0, g)))"

text \<open>
  The body of the loop of \<^verbatim>\<open>zswap_writeback_entries\<close> in its two lock
  regions. The first (lines 655 to 669) takes the head of the LRU and pins it;
  \<open>None\<close> is the \<^verbatim>\<open>break\<close> on an empty list.
\<close>

definition zswap_writeback_dequeue ::
  "zswap_tree \<Rightarrow> zswap \<Rightarrow> (eptr \<times> zswap_tree \<times> zswap) option" where
  "zswap_writeback_dequeue tree g =
     (case lru tree of
        [] \<Rightarrow> None
      | e # rest \<Rightarrow>
          Some (e, tree\<lparr>lru := list_del_init e (lru tree)\<rparr>, zswap_entry_get e g))"

text \<open>
  The second (lines 674 to 706) drops the pin, and the reference of the
  creation when the writeback returned 0, then acts on the refcount; the
  boolean says whether \<^verbatim>\<open>freed_nr\<close> is incremented. It runs on the tree the
  first region left, where the entry is on no list: \<^verbatim>\<open>list_add\<close> of a node
  that is still linked is not what the cons below describes.
\<close>

definition zswap_writeback_release ::
  "int \<Rightarrow> zswap_tree \<Rightarrow> eptr \<Rightarrow> zswap \<Rightarrow> bool \<times> zswap_tree \<times> zswap" where
  "zswap_writeback_release ret tree e g =
     (case zswap_entry_put e g of
        (rc1, g1) \<Rightarrow>
          (case (if ret = 0 then zswap_entry_put e g1 else (rc1, g1)) of
             (rc, g2) \<Rightarrow>
               let tree1 = (if rc = 1 then tree\<lparr>lru := e # lru tree\<rparr> else tree);
                   tree2 = (if rc = 0 then tree1\<lparr>rbroot := rb_erase e (rbroot tree1)\<rparr>
                            else tree1)
               in if sint rc \<le> 0
                  then (case zswap_free_entry tree2 e g2 of (tree3, g3) \<Rightarrow> (True, tree3, g3))
                  else (False, tree2, g2)))"

text \<open>
  The loop, with \<open>n\<close> iterations left, at iteration \<open>i\<close>; \<open>io i\<close> is what
  the swap cache and the block layer answer at iteration \<open>i\<close>.
\<close>

fun zswap_writeback_entries_loop ::
  "crypto_comp \<Rightarrow> (nat \<Rightarrow> swap_io) \<Rightarrow> nat \<Rightarrow> nat \<Rightarrow> zswap_tree \<Rightarrow> zswap \<Rightarrow> nat \<Rightarrow>
   fault + (nat \<times> zswap_tree \<times> zswap)" where
  "zswap_writeback_entries_loop tfm io 0 i tree g freed_nr = Inr (freed_nr, tree, g)"
| "zswap_writeback_entries_loop tfm io (Suc n) i tree g freed_nr =
     (if ZSWAP_MAX_OUTSTANDING_FLUSHES < sint (zswap_outstanding_writebacks g)
      then Inr (freed_nr, tree, g)
      else
        (case zswap_writeback_dequeue tree g of
           None \<Rightarrow> Inr (freed_nr, tree, g)
         | Some (e, tree1, g1) \<Rightarrow>
             (case zswap_writeback_entry tfm (io i) tree1 e g1 of
                Inl f \<Rightarrow> Inl f
              | Inr (ret, g2) \<Rightarrow>
                  (case zswap_writeback_release ret tree1 e g2 of
                     (freed, tree3, g3) \<Rightarrow>
                       zswap_writeback_entries_loop tfm io n (Suc i) tree3 g3
                         (if freed then freed_nr + 1 else freed_nr)))))"

definition zswap_writeback_entries ::
  "crypto_comp \<Rightarrow> (nat \<Rightarrow> swap_io) \<Rightarrow> zswap_tree \<Rightarrow> zswap \<Rightarrow> nat \<Rightarrow>
   fault + (nat \<times> zswap_tree \<times> zswap)" where
  "zswap_writeback_entries tfm io tree g nr =
     zswap_writeback_entries_loop tfm io nr 0 tree g 0"

subsection \<open>Page pool for temporary compression results\<close>

definition zswap_tmppage_alloc :: "zswap \<Rightarrow> pageptr option \<times> zswap" where
  "zswap_tmppage_alloc g =
     (case zswap_tmppage_list g of
        [] \<Rightarrow> (None, g)
      | page # rest \<Rightarrow> (Some page, g\<lparr>zswap_tmppage_list := rest\<rparr>))"

definition zswap_tmppage_free :: "pageptr \<Rightarrow> zswap \<Rightarrow> zswap" where
  "zswap_tmppage_free page g = g\<lparr>zswap_tmppage_list := page # zswap_tmppage_list g\<rparr>"

subsection \<open>Frontswap hooks\<close>

text \<open>
  What the kernel answers to one call of \<^verbatim>\<open>zswap_frontswap_store\<close>: the
  result of \<^verbatim>\<open>kmem_cache_alloc\<close>, the handles of the first and of the second
  \<^verbatim>\<open>zs_malloc\<close> (0 for a failure), and the swap cache and block layer at
  each iteration of the writeback.
\<close>

record store_env =
  kmem_cache_alloc :: "eptr option"
  zs_malloc_first :: nat
  zs_malloc_second :: nat
  writeback_io :: "nat \<Rightarrow> swap_io"

text \<open>
  The label \<^verbatim>\<open>freepage\<close> (lines 905 to 910). The page pointer means nothing
  when no writeback was attempted.
\<close>

definition zswap_store_freepage :: "bool \<Rightarrow> pageptr \<Rightarrow> eptr \<Rightarrow> zswap \<Rightarrow> zswap" where
  "zswap_store_freepage writeback_attempted tmppage e g =
     zswap_entry_cache_free e
       (if writeback_attempted then zswap_tmppage_free tmppage g else put_cpu_var g)"

text \<open>
  The branch of the loop below for an entry \<open>d\<close> found at the offset
  (lines 876 to 884): it is counted, unlinked from the rbtree and from the LRU,
  and freed when its refcount drops to 0.
\<close>

definition zswap_store_unlink_dup :: "zswap_tree \<Rightarrow> eptr \<Rightarrow> zswap \<Rightarrow> zswap_tree \<times> zswap" where
  "zswap_store_unlink_dup tree d g =
     (let g1 = g\<lparr>zswap_duplicate_entry := zswap_duplicate_entry g + 1\<rparr>;
          tree1 = tree\<lparr>rbroot := rb_erase d (rbroot tree)\<rparr>;
          tree2 = (if d \<in> set (lru tree1)
                   then tree1\<lparr>lru := list_del_init d (lru tree1)\<rparr> else tree1)
      in case zswap_entry_put d g1 of
           (rc, g2) \<Rightarrow> if rc = 0 then zswap_free_entry tree2 d g2 else (tree2, g2))"

text \<open>
  The \<^verbatim>\<open>do ... while (ret == -EEXIST)\<close> loop under the tree lock (lines 873
  to 886), the new entry being linked when the function returns.
  \<^verbatim>\<open>zswap_rb_insert\<close> returns \<^verbatim>\<open>-EEXIST\<close> exactly when it sets
  \<^verbatim>\<open>*dupentry\<close>, and the loop goes round on that.
\<close>

function zswap_store_insert :: "zswap_tree \<Rightarrow> eptr \<Rightarrow> zswap \<Rightarrow> zswap_tree \<times> zswap" where
  "zswap_store_insert tree e g =
     (case zswap_rb_insert (rbroot tree) e g of
        (ret, root, dupentry) \<Rightarrow>
          (case dupentry of
             Some d \<Rightarrow>
               (case zswap_store_unlink_dup (tree\<lparr>rbroot := root\<rparr>) d g of
                  (tree3, g3) \<Rightarrow> zswap_store_insert tree3 e g3)
           | None \<Rightarrow> (tree\<lparr>rbroot := root\<rparr>, g)))"
  by pat_completeness auto
termination
  by (relation "measure (\<lambda>(tree, e, g).
          if fmlookup (rbroot tree) (offset (entries g e)) = None then 0 else 1)")
     (auto simp: zswap_rb_insert_def zswap_store_unlink_dup_def rb_erase_def
          zswap_entry_put_def zswap_free_entry_def zswap_entry_cache_free_def Let_def
        split: option.splits if_splits)

text \<open>
  Lines 858 to 903: the compressed bytes are copied into the object, the
  buffer is released, the entry is filled and linked. \<open>dst\<close> is the buffer
  that holds the compressed bytes.
\<close>

definition zswap_store_map ::
  "nat \<Rightarrow> nat \<Rightarrow> eptr \<Rightarrow> nat \<Rightarrow> bytes \<Rightarrow> 32 word \<Rightarrow> bool \<Rightarrow> pageptr \<Rightarrow>
   zswap_tree \<Rightarrow> zswap \<Rightarrow> zswap" where
  "zswap_store_map type off e h dst dlen writeback_attempted tmppage tree g =
     (let tree1 = tree\<lparr>pool := zs_store h (take (unat dlen) dst) (pool tree)\<rparr>;
          g1 = (if writeback_attempted then zswap_tmppage_free tmppage g else put_cpu_var g);
          g2 = g1\<lparr>entries := (entries g1)
                 (e := (entries g1 e)\<lparr>offset := off, handle := h, entry_length := dlen\<rparr>)\<rparr>
      in case zswap_store_insert tree1 e g2 of
           (tree2, g3) \<Rightarrow>
             g3\<lparr>zswap_stored_pages := zswap_stored_pages g3 + 1,
                zswap_trees := (zswap_trees g3)(type \<mapsto> tree2\<lparr>lru := lru tree2 @ [e]\<rparr>)\<rparr>)"

text \<open>
  \<^verbatim>\<open>zswap_frontswap_store\<close>: the return value and the state, or a fault of
  the writeback it ran.
\<close>

definition zswap_frontswap_store ::
  "crypto_comp \<Rightarrow> store_env \<Rightarrow> nat \<Rightarrow> nat \<Rightarrow> bytes \<Rightarrow> zswap \<Rightarrow> fault + (int \<times> zswap)" where
  "zswap_frontswap_store tfm env type off page g =
     (case zswap_trees g type of
        None \<Rightarrow> Inr (- ENODEV, g)
      | Some tree \<Rightarrow>
          (case zswap_entry_cache_alloc (kmem_cache_alloc env) g of
             (None, g0) \<Rightarrow>
               Inr (- ENOMEM,
                    g0\<lparr>zswap_reject_kmemcache_fail := zswap_reject_kmemcache_fail g0 + 1\<rparr>)
           | (Some e, g0) \<Rightarrow>
               (case zswap_comp_op tfm ZSWAP_COMPOP_COMPRESS page PAGE_SIZE
                       (zswap_dstmem (get_cpu_var g0)) of
                  (ret, dst, dlen) \<Rightarrow>
                    let g1 = (get_cpu_var g0)\<lparr>zswap_dstmem := dst\<rparr> in
                    if ret \<noteq> 0 then Inr (- EINVAL, zswap_store_freepage False 0 e g1)
                    else if unat (zswap_max_compression_ratio g1) < unat (dlen * 100) div PAGE_SIZE
                    then Inr (- E2BIG,
                              zswap_store_freepage False 0 e
                                (g1\<lparr>zswap_reject_compress_poor :=
                                      zswap_reject_compress_poor g1 + 1\<rparr>))
                    else if zs_malloc_first env \<noteq> 0
                    then Inr (0, zswap_store_map type off e (zs_malloc_first env) dst dlen False 0
                                   (tree\<lparr>pool := zs_malloc (zs_malloc_first env) (pool tree)\<rparr>) g1)
                    else
                      (case zswap_tmppage_alloc
                              (g1\<lparr>zswap_writeback_attempted :=
                                    zswap_writeback_attempted g1 + 1\<rparr>) of
                         (None, g2) \<Rightarrow>
                           Inr (- ENOMEM,
                                zswap_store_freepage False 0 e
                                  (g2\<lparr>zswap_reject_tmppage_fail :=
                                        zswap_reject_tmppage_fail g2 + 1\<rparr>))
                       | (Some tmppage, g2) \<Rightarrow>
                           (case zswap_writeback_entries tfm (writeback_io env) tree
                                   (put_cpu_var g2) 16 of
                              Inl f \<Rightarrow> Inl f
                            | Inr (freed_nr, tree1, g3) \<Rightarrow>
                                if zs_malloc_second env = 0
                                then Inr (- ENOMEM,
                                          zswap_store_freepage True tmppage e
                                            (g3\<lparr>zswap_reject_zsmalloc_fail :=
                                                   zswap_reject_zsmalloc_fail g3 + 1,
                                                 zswap_trees := (zswap_trees g3)(type \<mapsto> tree1)\<rparr>))
                                else Inr (0, zswap_store_map type off e (zs_malloc_second env)
                                               (take (unat dlen) dst) dlen True tmppage
                                               (tree1\<lparr>pool := zs_malloc (zs_malloc_second env)
                                                                 (pool tree1)\<rparr>)
                                               (g3\<lparr>zswap_saved_by_writeback :=
                                                      zswap_saved_by_writeback g3 + 1\<rparr>)))))))"

text \<open>
  The same function up to line 856, where it stands before the insertion: it
  has faulted, or left through \<^verbatim>\<open>reject\<close> or \<^verbatim>\<open>freepage\<close> with a return
  value, or holds the entry, the handle, the buffer of the compressed bytes and
  their length, the flag and the scratch page of the writeback, and the tree
  and the globals as they are then.
\<close>

datatype store_step =
  Store_fault fault
| Store_reject int zswap
| Store_insert eptr nat bytes "32 word" bool pageptr zswap_tree zswap

definition zswap_store_prepare ::
  "crypto_comp \<Rightarrow> store_env \<Rightarrow> nat \<Rightarrow> bytes \<Rightarrow> zswap \<Rightarrow> store_step" where
  "zswap_store_prepare tfm env type page g =
     (case zswap_trees g type of
        None \<Rightarrow> Store_reject (- ENODEV) g
      | Some tree \<Rightarrow>
          (case zswap_entry_cache_alloc (kmem_cache_alloc env) g of
             (None, g0) \<Rightarrow>
               Store_reject (- ENOMEM)
                 (g0\<lparr>zswap_reject_kmemcache_fail := zswap_reject_kmemcache_fail g0 + 1\<rparr>)
           | (Some e, g0) \<Rightarrow>
               (case zswap_comp_op tfm ZSWAP_COMPOP_COMPRESS page PAGE_SIZE
                       (zswap_dstmem (get_cpu_var g0)) of
                  (ret, dst, dlen) \<Rightarrow>
                    let g1 = (get_cpu_var g0)\<lparr>zswap_dstmem := dst\<rparr> in
                    if ret \<noteq> 0 then Store_reject (- EINVAL) (zswap_store_freepage False 0 e g1)
                    else if unat (zswap_max_compression_ratio g1) < unat (dlen * 100) div PAGE_SIZE
                    then Store_reject (- E2BIG)
                           (zswap_store_freepage False 0 e
                              (g1\<lparr>zswap_reject_compress_poor :=
                                    zswap_reject_compress_poor g1 + 1\<rparr>))
                    else if zs_malloc_first env \<noteq> 0
                    then Store_insert e (zs_malloc_first env) dst dlen False 0
                           (tree\<lparr>pool := zs_malloc (zs_malloc_first env) (pool tree)\<rparr>) g1
                    else
                      (case zswap_tmppage_alloc
                              (g1\<lparr>zswap_writeback_attempted :=
                                    zswap_writeback_attempted g1 + 1\<rparr>) of
                         (None, g2) \<Rightarrow>
                           Store_reject (- ENOMEM)
                             (zswap_store_freepage False 0 e
                                (g2\<lparr>zswap_reject_tmppage_fail :=
                                      zswap_reject_tmppage_fail g2 + 1\<rparr>))
                       | (Some tmppage, g2) \<Rightarrow>
                           (case zswap_writeback_entries tfm (writeback_io env) tree
                                   (put_cpu_var g2) 16 of
                              Inl f \<Rightarrow> Store_fault f
                            | Inr (freed_nr, tree1, g3) \<Rightarrow>
                                if zs_malloc_second env = 0
                                then Store_reject (- ENOMEM)
                                       (zswap_store_freepage True tmppage e
                                          (g3\<lparr>zswap_reject_zsmalloc_fail :=
                                                 zswap_reject_zsmalloc_fail g3 + 1,
                                               zswap_trees := (zswap_trees g3)(type \<mapsto> tree1)\<rparr>))
                                else Store_insert e (zs_malloc_second env)
                                       (take (unat dlen) dst) dlen True tmppage
                                       (tree1\<lparr>pool := zs_malloc (zs_malloc_second env)
                                                         (pool tree1)\<rparr>)
                                       (g3\<lparr>zswap_saved_by_writeback :=
                                              zswap_saved_by_writeback g3 + 1\<rparr>))))))"

text \<open>
  \<^verbatim>\<open>zswap_frontswap_load\<close>: the return value, the destination page and the
  state. The tree pointer is dereferenced without a test. The return value of
  \<^verbatim>\<open>zswap_comp_op\<close> and the length it gives are dropped, as in the source.
\<close>

definition zswap_frontswap_load ::
  "crypto_comp \<Rightarrow> nat \<Rightarrow> nat \<Rightarrow> bytes \<Rightarrow> zswap \<Rightarrow> fault + (int \<times> bytes \<times> zswap)" where
  "zswap_frontswap_load tfm type off page g =
     (case zswap_trees g type of
        None \<Rightarrow> Inl NULL_DEREF
      | Some tree \<Rightarrow>
          (case zswap_rb_search (rbroot tree) off of
             None \<Rightarrow> Inr (- 1, page, g)
           | Some e \<Rightarrow>
               (let g1 = zswap_entry_get e g;
                    tree1 = (if e \<in> set (lru tree)
                             then tree\<lparr>lru := list_del_init e (lru tree)\<rparr> else tree)
                in case zswap_comp_op tfm ZSWAP_COMPOP_DECOMPRESS
                          (objs (pool tree1) (handle (entries g1 e)))
                          (unat (entry_length (entries g1 e))) page of
                     (ret, dst, dlen) \<Rightarrow>
                       (case zswap_entry_put e g1 of
                          (rc, g2) \<Rightarrow>
                            if rc \<noteq> 0
                            then Inr (0, dst,
                                      g2\<lparr>zswap_trees := (zswap_trees g2)
                                           (type \<mapsto> tree1\<lparr>lru := lru tree1 @ [e]\<rparr>)\<rparr>)
                            else (case zswap_free_entry tree1 e g2 of
                                    (tree2, g3) \<Rightarrow>
                                      Inr (0, dst,
                                           g3\<lparr>zswap_trees :=
                                                (zswap_trees g3)(type \<mapsto> tree2)\<rparr>))))))"

text \<open>\<^verbatim>\<open>zswap_frontswap_invalidate_page\<close>: again no test of the tree pointer.\<close>

definition zswap_frontswap_invalidate_page :: "nat \<Rightarrow> nat \<Rightarrow> zswap \<Rightarrow> fault + zswap" where
  "zswap_frontswap_invalidate_page type off g =
     (case zswap_trees g type of
        None \<Rightarrow> Inl NULL_DEREF
      | Some tree \<Rightarrow>
          (case zswap_rb_search (rbroot tree) off of
             None \<Rightarrow> Inr g
           | Some e \<Rightarrow>
               (let tree1 = tree\<lparr>rbroot := rb_erase e (rbroot tree)\<rparr>;
                    tree2 = (if e \<in> set (lru tree1)
                             then tree1\<lparr>lru := list_del_init e (lru tree1)\<rparr> else tree1)
                in case zswap_entry_put e g of
                     (rc, g1) \<Rightarrow>
                       if rc \<noteq> 0
                       then Inr (g1\<lparr>zswap_trees := (zswap_trees g1)(type \<mapsto> tree2)\<rparr>)
                       else (case zswap_free_entry tree2 e g1 of
                               (tree3, g2) \<Rightarrow>
                                 Inr (g2\<lparr>zswap_trees :=
                                           (zswap_trees g2)(type \<mapsto> tree3)\<rparr>)))))"

text \<open>
  The loop of \<^verbatim>\<open>zswap_frontswap_invalidate_area\<close> (lines 1029 to 1035): the
  first node is unlinked and freed until the tree is empty.
\<close>

function zswap_invalidate_area_loop :: "zswap_tree \<Rightarrow> zswap \<Rightarrow> zswap_tree \<times> zswap" where
  "zswap_invalidate_area_loop tree g =
     (case rb_first (rbroot tree) of
        None \<Rightarrow> (tree, g)
      | Some e \<Rightarrow>
          zswap_invalidate_area_loop
            (tree\<lparr>rbroot := rb_erase e (rbroot tree),
                  pool := zs_free (handle (entries g e)) (pool tree)\<rparr>)
            ((zswap_entry_cache_free e g)\<lparr>zswap_stored_pages := zswap_stored_pages g - 1\<rparr>))"
  by pat_completeness auto
termination
proof (relation "measure (\<lambda>(tree, g). fcard (fmdom (rbroot tree)))", goal_cases)
  case 1
  show ?case by simp
next
  case (2 tree g e)
  then obtain k where k: "fmlookup (rbroot tree) k = Some e"
    by (auto simp: rb_first_def split: list.splits)
  then have kd: "k |\<in>| fmdom (rbroot tree)"
    by (simp add: fmdomI)
  have "fmdom (rb_erase e (rbroot tree)) |\<subset>| fmdom (rbroot tree)"
    using k kd by (auto simp: rb_erase_def)
  then have "fcard (fmdom (rb_erase e (rbroot tree))) < fcard (fmdom (rbroot tree))"
    by (rule pfsubset_fcard_mono)
  then show ?case by simp
qed

definition zswap_frontswap_invalidate_area :: "nat \<Rightarrow> zswap \<Rightarrow> zswap" where
  "zswap_frontswap_invalidate_area type g =
     (case zswap_trees g type of
        None \<Rightarrow> g
      | Some tree \<Rightarrow>
          (case zswap_invalidate_area_loop tree g of
             (tree1, g1) \<Rightarrow>
               g1\<lparr>zswap_trees :=
                    (zswap_trees g1)(type \<mapsto> tree1\<lparr>rbroot := fmempty, lru := []\<rparr>)\<rparr>))"

text \<open>
  \<^verbatim>\<open>zswap_frontswap_init\<close>: \<open>kzalloc_ok\<close> and \<open>pool_ok\<close> say whether
  \<^verbatim>\<open>kzalloc\<close> and \<^verbatim>\<open>zs_create_pool\<close> gave memory; the new pool holds the
  bytes \<open>mem\<close> and no object.
\<close>

definition zswap_frontswap_init :: "bool \<Rightarrow> bool \<Rightarrow> (nat \<Rightarrow> bytes) \<Rightarrow> nat \<Rightarrow> zswap \<Rightarrow> zswap" where
  "zswap_frontswap_init kzalloc_ok pool_ok mem type g =
     (if \<not> kzalloc_ok then g
      else if \<not> pool_ok then g
      else g\<lparr>zswap_trees := (zswap_trees g)
               (type \<mapsto> \<lparr>rbroot = fmempty, lru = [],
                          pool = \<lparr>objs = mem, allocated = {}\<rparr>, swap_type = type\<rparr>)\<rparr>)"

subsection \<open>Module init\<close>

text \<open>
  The globals after a successful \<^verbatim>\<open>init_zswap\<close>: the counters at their
  initialisers, the tunables at their defaults, no tree, the 16 pages of
  \<^verbatim>\<open>zswap_tmppage_pool_create\<close> in the list and a buffer of
  \<^verbatim>\<open>PAGE_SIZE * 2\<close> bytes for the CPU.
\<close>

definition zswap_boot :: zswap where
  "zswap_boot =
     \<lparr>zswap_pool_pages = 0, zswap_stored_pages = 0, zswap_outstanding_writebacks = 0,
      zswap_pool_limit_hit = 0, zswap_written_back_pages = 0, zswap_reject_compress_poor = 0,
      zswap_writeback_attempted = 0, zswap_reject_tmppage_fail = 0,
      zswap_reject_zsmalloc_fail = 0, zswap_reject_kmemcache_fail = 0,
      zswap_saved_by_writeback = 0, zswap_duplicate_entry = 0,
      zswap_max_pool_percent = 50, zswap_max_compression_ratio = 80,
      zswap_trees = (\<lambda>type. None),
      entries = (\<lambda>e. \<lparr>refcount = 0, offset = 0, handle = 0, entry_length = 0\<rparr>),
      zswap_entry_cache = {},
      zswap_dstmem = replicate (2 * PAGE_SIZE) 0,
      preempt_count = 0,
      zswap_tmppage_list = [0..<ZSWAP_TMPPAGE_POOL_PAGES]\<rparr>"

subsection \<open>States and collaborators of the examples\<close>

text \<open>The state after \<^verbatim>\<open>zswap_frontswap_init(0)\<close> on a fresh module.\<close>

definition zswap_area0 :: zswap where
  "zswap_area0 = zswap_frontswap_init True True (\<lambda>h. []) 0 zswap_boot"

text \<open>
  A transform for pages filled with one byte: it compresses a page to its first
  byte and decompresses a byte to a page; it fails on an empty input.
\<close>

definition fill_tfm :: crypto_comp where
  "fill_tfm =
     \<lparr>crypto_comp_compress = (\<lambda>src. (0, take 1 src)),
      crypto_comp_decompress =
        (\<lambda>src. case src of [] \<Rightarrow> (- EINVAL, []) | b # _ \<Rightarrow> (0, replicate PAGE_SIZE b))\<rparr>"

text \<open>The same transform with a compressor that copies its input.\<close>

definition copy_tfm :: crypto_comp where
  "copy_tfm = fill_tfm\<lparr>crypto_comp_compress := (\<lambda>src. (0, src))\<rparr>"

text \<open>The same transform with a decompressor that fails and writes nothing.\<close>

definition broken_tfm :: crypto_comp where
  "broken_tfm = fill_tfm\<lparr>crypto_comp_decompress := (\<lambda>src. (- EINVAL, []))\<rparr>"

text \<open>
  Area 0 with one stored page of bytes \<^verbatim>\<open>0x41\<close> at offset \<^verbatim>\<open>0x30\<close>: entry 7,
  handle 5.
\<close>

definition zswap_one_tree :: zswap_tree where
  "zswap_one_tree =
     \<lparr>rbroot = fmupd 48 7 fmempty, lru = [7],
      pool = \<lparr>objs = (\<lambda>h. [])(5 := [65]), allocated = {5}\<rparr>, swap_type = 0\<rparr>"

definition zswap_one_entry :: zswap where
  "zswap_one_entry =
     zswap_boot
       \<lparr>zswap_stored_pages := 1,
        zswap_trees := (\<lambda>type. None)(0 \<mapsto> zswap_one_tree),
        entries := (entries zswap_boot)
          (7 := \<lparr>refcount = 1, offset = 48, handle = 5, entry_length = 1\<rparr>),
        zswap_entry_cache := {7},
        zswap_dstmem := 65 # replicate (2 * PAGE_SIZE - 1) 0\<rparr>"

text \<open>The same state with the refcount of entry 7 set to \<open>n\<close>.\<close>

definition zswap_one_entry_ref :: "32 word \<Rightarrow> zswap" where
  "zswap_one_entry_ref n =
     zswap_one_entry\<lparr>entries := (entries zswap_one_entry)
        (7 := \<lparr>refcount = n, offset = 48, handle = 5, entry_length = 1\<rparr>)\<rparr>"

text \<open>
  A swap cache without memory, one that gives a new page and takes the write,
  and one that holds the page already.
\<close>

definition no_writeback :: "nat \<Rightarrow> swap_io" where
  "no_writeback i =
     \<lparr>get_swap_cache_page = ZSWAP_SWAPCACHE_NOMEM, swap_cache_page = [], swap_writepage = 0\<rparr>"

definition new_writeback :: "nat \<Rightarrow> swap_io" where
  "new_writeback i =
     \<lparr>get_swap_cache_page = ZSWAP_SWAPCACHE_NEW, swap_cache_page = replicate PAGE_SIZE 0,
      swap_writepage = 0\<rparr>"

definition exist_writeback :: "nat \<Rightarrow> swap_io" where
  "exist_writeback i =
     \<lparr>get_swap_cache_page = ZSWAP_SWAPCACHE_EXIST, swap_cache_page = replicate PAGE_SIZE 0,
      swap_writepage = 0\<rparr>"

text \<open>
  A kernel that gives entry \<open>e\<close> and handle \<open>h\<close> at the first attempt; one
  whose first \<^verbatim>\<open>zs_malloc\<close> fails, whose writeback goes through and whose
  second \<^verbatim>\<open>zs_malloc\<close> gives \<open>h\<close>; and one whose first \<^verbatim>\<open>zs_malloc\<close>
  fails, whose writeback finds every page in the swap cache and whose second
  \<^verbatim>\<open>zs_malloc\<close> gives \<open>h\<close>.
\<close>

definition plain_env :: "eptr \<Rightarrow> nat \<Rightarrow> store_env" where
  "plain_env e h =
     \<lparr>kmem_cache_alloc = Some e, zs_malloc_first = h, zs_malloc_second = 0,
      writeback_io = no_writeback\<rparr>"

definition pressure_env :: "eptr \<Rightarrow> nat \<Rightarrow> store_env" where
  "pressure_env e h =
     \<lparr>kmem_cache_alloc = Some e, zs_malloc_first = 0, zs_malloc_second = h,
      writeback_io = new_writeback\<rparr>"

definition busy_env :: "eptr \<Rightarrow> nat \<Rightarrow> store_env" where
  "busy_env e h =
     \<lparr>kmem_cache_alloc = Some e, zs_malloc_first = 0, zs_malloc_second = h,
      writeback_io = exist_writeback\<rparr>"

section \<open>Properties\<close>

subsection \<open>The pool limit of the page-frame allocator\<close>

lemma unat_ucast_percent:
  fixes w :: "32 word"
  assumes "32 \<le> LENGTH('l::len)"
  shows "unat (ucast w :: 'l word) = unat w"
proof -
  have "unat w < 2 ^ 32"
    using unsigned_less [of w, where ?'a = nat] by simp
  also have "(2::nat) ^ 32 \<le> 2 ^ LENGTH('l)"
    using assms by (rule power_increasing) simp
  finally have "take_bit LENGTH('l) (unat w) = unat w"
    by (simp add: take_bit_nat_eq_self)
  then show ?thesis
    by (simp add: unsigned_ucast_eq)
qed

lemma unat_100:
  assumes "32 \<le> LENGTH('l::len)"
  shows "unat (100 :: 'l word) = 100"
proof -
  have "(100::nat) < 2 ^ 32" by simp
  also have "(2::nat) ^ 32 \<le> 2 ^ LENGTH('l)"
    using assms by (rule power_increasing) simp
  finally show ?thesis
    by (simp add: unat_of_nat take_bit_nat_eq_self)
qed

text \<open>The limit as the C expression computes it, wrap-around included.\<close>

lemma unat_zswap_max_pool_pages:
  fixes totalram_pages :: "'l::len word"
  assumes len: "32 \<le> LENGTH('l)"
  shows "unat (zswap_max_pool_pages totalram_pages g) =
         (unat (zswap_max_pool_percent g) * unat totalram_pages mod 2 ^ LENGTH('l) div 100)
           mod 2 ^ 32"
proof -
  let ?p = "ucast (zswap_max_pool_percent g) :: 'l word"
  have p: "unat ?p = unat (zswap_max_pool_percent g)"
    using len by (rule unat_ucast_percent)
  have "unat (?p * totalram_pages) =
      unat (zswap_max_pool_percent g) * unat totalram_pages mod 2 ^ LENGTH('l)"
    by (simp add: unat_word_ariths(2) p)
  then have "unat (?p * totalram_pages div 100) =
      unat (zswap_max_pool_percent g) * unat totalram_pages mod 2 ^ LENGTH('l) div 100"
    using unat_100 [OF len] by (simp add: unat_div)
  moreover have "unat (ucast (?p * totalram_pages div 100) :: 32 word) =
      unat (?p * totalram_pages div 100) mod 2 ^ 32"
    by (simp add: unsigned_ucast_eq take_bit_eq_mod)
  ultimately show ?thesis
    by (simp add: zswap_max_pool_pages_def)
qed

text \<open>
  Claim C9, as amended. Let the limit be what the C expression
  \<^verbatim>\<open>zswap_max_pool_percent * totalram_pages / 100\<close> gives: the product taken
  modulo \<open>2 ^ LENGTH('l)\<close>, the width of \<^verbatim>\<open>unsigned long\<close> (at least 32 bits),
  divided by 100, and the quotient cut to the 32 bits of the \<^verbatim>\<open>unsigned int\<close>
  the function returns; and let the frames in use be \<open>zswap_pool_pages\<close> as the
  comparison reads it, unsigned. For every request: when the frames in use have
  reached the limit, \<^verbatim>\<open>zswap_alloc_page\<close> returns no frame and increments
  \<open>zswap_pool_limit_hit\<close>, changing nothing else; below the limit it returns
  what \<^verbatim>\<open>mempool_alloc\<close> gave and, when that is a frame, increments
  \<open>zswap_pool_pages\<close> by one, the limit counter staying; so a failure together
  with an increment of the limit counter happens exactly at the limit.
  \<^verbatim>\<open>zswap_free_page\<close> of a frame decrements \<open>zswap_pool_pages\<close> by one. And
  the limit is \<open>zswap_max_pool_percent * totalram_pages div 100\<close> of the
  integers whenever the product fits the \<^verbatim>\<open>unsigned long\<close> and the quotient the
  \<^verbatim>\<open>unsigned int\<close>.
\<close>

theorem zswap_alloc_page_pool_limit:
  fixes totalram_pages :: "'l::len word" and g :: zswap
  defines "limit \<equiv>
    (unat (zswap_max_pool_percent g) * unat totalram_pages mod 2 ^ LENGTH('l) div 100) mod 2 ^ 32"
  assumes len: "32 \<le> LENGTH('l)"
  shows
    "(limit \<le> unat (zswap_pool_pages g) \<longrightarrow>
        zswap_alloc_page totalram_pages mempool g =
          (None, g\<lparr>zswap_pool_limit_hit := zswap_pool_limit_hit g + 1\<rparr>)) \<and>
     (unat (zswap_pool_pages g) < limit \<longrightarrow>
        zswap_alloc_page totalram_pages mempool g =
          (mempool,
           case mempool of None \<Rightarrow> g
           | Some page \<Rightarrow> g\<lparr>zswap_pool_pages := zswap_pool_pages g + 1\<rparr>)) \<and>
     ((fst (zswap_alloc_page totalram_pages mempool g) = None \<and>
       zswap_pool_limit_hit (snd (zswap_alloc_page totalram_pages mempool g)) =
         zswap_pool_limit_hit g + 1) \<longleftrightarrow>
      limit \<le> unat (zswap_pool_pages g)) \<and>
     zswap_free_page (Some page) g = g\<lparr>zswap_pool_pages := zswap_pool_pages g - 1\<rparr> \<and>
     (unat (zswap_max_pool_percent g) * unat totalram_pages < 2 ^ LENGTH('l) \<and>
      unat (zswap_max_pool_percent g) * unat totalram_pages div 100 < 2 ^ 32 \<longrightarrow>
        limit = unat (zswap_max_pool_percent g) * unat totalram_pages div 100)"
proof -
  have lim: "zswap_max_pool_pages totalram_pages g \<le> zswap_pool_pages g \<longleftrightarrow>
        limit \<le> unat (zswap_pool_pages g)"
    using unat_zswap_max_pool_pages [OF len, of totalram_pages g]
    by (simp add: word_le_nat_alt limit_def)
  have hit: "zswap_alloc_page totalram_pages mempool g =
        (None, g\<lparr>zswap_pool_limit_hit := zswap_pool_limit_hit g + 1\<rparr>)"
    if "limit \<le> unat (zswap_pool_pages g)"
    using that lim by (simp add: zswap_alloc_page_def)
  have miss: "zswap_alloc_page totalram_pages mempool g =
        (mempool, case mempool of None \<Rightarrow> g
           | Some page \<Rightarrow> g\<lparr>zswap_pool_pages := zswap_pool_pages g + 1\<rparr>)"
    if "unat (zswap_pool_pages g) < limit"
    using that lim by (simp add: zswap_alloc_page_def split: option.splits)
  have "zswap_pool_limit_hit g \<noteq> zswap_pool_limit_hit g + 1"
    by simp
  then have iff: "(fst (zswap_alloc_page totalram_pages mempool g) = None \<and>
       zswap_pool_limit_hit (snd (zswap_alloc_page totalram_pages mempool g)) =
         zswap_pool_limit_hit g + 1) \<longleftrightarrow> limit \<le> unat (zswap_pool_pages g)"
    using hit miss by (cases "limit \<le> unat (zswap_pool_pages g)")
      (auto simp: not_le split: option.splits)
  have free: "zswap_free_page (Some page) g = g\<lparr>zswap_pool_pages := zswap_pool_pages g - 1\<rparr>"
    by (simp add: zswap_free_page_def)
  have exact: "limit = unat (zswap_max_pool_percent g) * unat totalram_pages div 100"
    if "unat (zswap_max_pool_percent g) * unat totalram_pages < 2 ^ LENGTH('l)"
      and "unat (zswap_max_pool_percent g) * unat totalram_pages div 100 < 2 ^ 32"
    using that by (simp add: limit_def)
  from hit miss iff free exact show ?thesis
    by blast
qed

theorem zswap_alloc_page_pool_limit_witness:
  "zswap_alloc_page (1000 :: 64 word) (Some 7) (zswap_boot\<lparr>zswap_pool_pages := 500\<rparr>) =
     (None, zswap_boot\<lparr>zswap_pool_pages := 500, zswap_pool_limit_hit := 1\<rparr>) \<and>
   zswap_alloc_page (1000 :: 64 word) (Some 7) (zswap_boot\<lparr>zswap_pool_pages := 499\<rparr>) =
     (Some 7, zswap_boot\<lparr>zswap_pool_pages := 500\<rparr>) \<and>
   zswap_alloc_page (1000 :: 64 word) (Some 7)
       (zswap_boot\<lparr>zswap_pool_pages := 3, zswap_max_pool_percent := 429496730\<rparr>) =
     (Some 7, zswap_boot\<lparr>zswap_pool_pages := 4, zswap_max_pool_percent := 429496730\<rparr>) \<and>
   zswap_free_page (Some 7) (zswap_boot\<lparr>zswap_pool_pages := 500\<rparr>) =
     zswap_boot\<lparr>zswap_pool_pages := 499\<rparr>"
proof -
  have len: "32 \<le> LENGTH(64)"
    by simp
  have "zswap_alloc_page (1000 :: 64 word) (Some 7) (zswap_boot\<lparr>zswap_pool_pages := 500\<rparr>) =
     (None, zswap_boot\<lparr>zswap_pool_pages := 500, zswap_pool_limit_hit := 1\<rparr>)"
    using zswap_alloc_page_pool_limit [OF len, where totalram_pages = 1000
      and g = "zswap_boot\<lparr>zswap_pool_pages := 500\<rparr>" and mempool = "Some 7" and page = 7]
    by (simp add: zswap_boot_def)
  moreover have "zswap_alloc_page (1000 :: 64 word) (Some 7)
      (zswap_boot\<lparr>zswap_pool_pages := 499\<rparr>) = (Some 7, zswap_boot\<lparr>zswap_pool_pages := 500\<rparr>)"
    using zswap_alloc_page_pool_limit [OF len, where totalram_pages = 1000
      and g = "zswap_boot\<lparr>zswap_pool_pages := 499\<rparr>" and mempool = "Some 7" and page = 7]
    by (simp add: zswap_boot_def)
  moreover have "zswap_alloc_page (1000 :: 64 word) (Some 7)
       (zswap_boot\<lparr>zswap_pool_pages := 3, zswap_max_pool_percent := 429496730\<rparr>) =
     (Some 7, zswap_boot\<lparr>zswap_pool_pages := 4, zswap_max_pool_percent := 429496730\<rparr>)"
    using zswap_alloc_page_pool_limit [OF len, where totalram_pages = 1000
      and g = "zswap_boot\<lparr>zswap_pool_pages := 3, zswap_max_pool_percent := 429496730\<rparr>"
      and mempool = "Some 7" and page = 7]
    by (simp add: zswap_boot_def)
  moreover have "zswap_free_page (Some 7) (zswap_boot\<lparr>zswap_pool_pages := 500\<rparr>) =
     zswap_boot\<lparr>zswap_pool_pages := 499\<rparr>"
    using zswap_alloc_page_pool_limit [OF len, where totalram_pages = "1000 :: 64 word"
      and g = "zswap_boot\<lparr>zswap_pool_pages := 500\<rparr>" and mempool = "Some 7" and page = 7]
    by (simp add: zswap_boot_def)
  ultimately show ?thesis
    by blast
qed

text \<open>
  Claim C9 as first stated fails where the C arithmetic wraps. The tunable
  \<^verbatim>\<open>max_pool_percent\<close> takes any \<^verbatim>\<open>unsigned int\<close>: at 429496730, with 1000
  pages of RAM and a 64-bit \<^verbatim>\<open>unsigned long\<close>, the quotient 4294967300 is cut
  to 4. With 4 frames in use the allocation fails and the limit is counted as
  hit, far below \<open>max_pool_percent * totalram_pages div 100\<close>.
\<close>

theorem zswap_alloc_page_limit_wraps:
  "zswap_alloc_page (1000 :: 64 word) (Some 7)
       (zswap_boot\<lparr>zswap_pool_pages := 4, zswap_max_pool_percent := 429496730\<rparr>) =
     (None, zswap_boot\<lparr>zswap_pool_pages := 4, zswap_max_pool_percent := 429496730,
                      zswap_pool_limit_hit := 1\<rparr>) \<and>
   unat (4 :: 32 word) < unat (429496730 :: 32 word) * unat (1000 :: 64 word) div 100"
proof -
  let ?g = "zswap_boot\<lparr>zswap_pool_pages := 4, zswap_max_pool_percent := 429496730\<rparr>"
  have "unat (zswap_max_pool_pages (1000 :: 64 word) ?g) = 4"
    by (simp add: unat_zswap_max_pool_pages zswap_boot_def)
  then have "zswap_max_pool_pages (1000 :: 64 word) ?g \<le> zswap_pool_pages ?g"
    by (simp add: word_le_nat_alt zswap_boot_def)
  then show ?thesis
    by (simp add: zswap_alloc_page_def zswap_boot_def)
qed

subsection \<open>Evaluation on concrete states\<close>

lemmas zswap_eval =
  zswap_frontswap_store_def zswap_area0_def zswap_frontswap_init_def zswap_boot_def
  zswap_entry_cache_alloc_def zswap_comp_op_def get_cpu_var_def put_cpu_var_def overwrite_def
  PAGE_SIZE_def zswap_store_map_def zs_malloc_def zs_store_def zswap_rb_insert_def
  zswap_one_entry_def zswap_one_tree_def zswap_one_entry_ref_def
  fill_tfm_def copy_tfm_def broken_tfm_def no_writeback_def new_writeback_def
  plain_env_def pressure_env_def busy_env_def exist_writeback_def zswap_store_prepare_def
  zswap_store_freepage_def zswap_entry_cache_free_def zswap_tmppage_alloc_def
  zswap_tmppage_free_def zswap_writeback_entries_def zswap_writeback_dequeue_def
  zswap_writeback_entry_def zswap_writeback_release_def zswap_entry_get_def zswap_entry_put_def
  zswap_free_entry_def zs_free_def rb_erase_def list_del_init_def zswap_rb_search_def
  zswap_frontswap_load_def zswap_frontswap_invalidate_page_def zswap_store_unlink_dup_def
  ZSWAP_MAX_OUTSTANDING_FLUSHES_def ZSWAP_TMPPAGE_POOL_PAGES_def
  E2BIG_def ENOMEM_def EEXIST_def ENODEV_def EINVAL_def Let_def

lemma zswap_writeback_entries_loop_numeral:
  "zswap_writeback_entries_loop tfm io (numeral k) i tree g freed_nr =
     (if ZSWAP_MAX_OUTSTANDING_FLUSHES < sint (zswap_outstanding_writebacks g)
      then Inr (freed_nr, tree, g)
      else
        (case zswap_writeback_dequeue tree g of
           None \<Rightarrow> Inr (freed_nr, tree, g)
         | Some (e, tree1, g1) \<Rightarrow>
             (case zswap_writeback_entry tfm (io i) tree1 e g1 of
                Inl f \<Rightarrow> Inl f
              | Inr (ret, g2) \<Rightarrow>
                  (case zswap_writeback_release ret tree1 e g2 of
                     (freed, tree3, g3) \<Rightarrow>
                       zswap_writeback_entries_loop tfm io (pred_numeral k) (Suc i) tree3 g3
                         (if freed then freed_nr + 1 else freed_nr)))))"
  by (simp only: numeral_eq_Suc zswap_writeback_entries_loop.simps)

subsection \<open>The index\<close>

lemma rb_erase_lookup:
  "fmlookup (rb_erase e root) k = (if fmlookup root k = Some e then None else fmlookup root k)"
  by (simp add: rb_erase_def)

lemma rb_erase_subset: "rb_erase e root \<subseteq>\<^sub>f root"
  by (simp add: rb_erase_def fmsubset_alt_def fmpred_iff)

lemma fmsubset_chain: "a \<subseteq>\<^sub>f b \<Longrightarrow> b \<subseteq>\<^sub>f c \<Longrightarrow> a \<subseteq>\<^sub>f c"
  by (auto simp: fmsubset_alt_def fmpred_iff)

lemma fmsubset_self: "a \<subseteq>\<^sub>f a"
  by (auto simp: fmsubset_alt_def fmpred_iff)

lemma zswap_store_insert_new:
  assumes "fmlookup (rbroot tree) (offset (entries g e)) = None"
  shows "zswap_store_insert tree e g =
         (tree\<lparr>rbroot := fmupd (offset (entries g e)) e (rbroot tree)\<rparr>, g)"
  using assms by (subst zswap_store_insert.simps) (simp add: zswap_rb_insert_def)

lemma zswap_store_unlink_dup_props:
  assumes "zswap_store_unlink_dup tree d g = (tree', g')"
  shows "rbroot tree' = rb_erase d (rbroot tree)"
    and "lru tree' = list_del_init d (lru tree)"
    and "objs (pool tree') = objs (pool tree)"
    and "entries g' = (entries g)(d := (entries g d)\<lparr>refcount := refcount (entries g d) - 1\<rparr>)"
    and "zswap_duplicate_entry g' = zswap_duplicate_entry g + 1"
    and "refcount (entries g d) = 1 \<Longrightarrow>
           zswap_entry_cache g' = zswap_entry_cache g - {d} \<and>
           allocated (pool tree') = allocated (pool tree) - {handle (entries g d)}"
    and "refcount (entries g d) \<noteq> 1 \<Longrightarrow>
           zswap_entry_cache g' = zswap_entry_cache g \<and> pool tree' = pool tree"
  using assms
  by (auto simp: zswap_store_unlink_dup_def zswap_entry_put_def zswap_free_entry_def
      zswap_entry_cache_free_def zs_free_def list_del_init_def Let_def split: if_splits)

lemma zswap_store_insert_dup:
  assumes dup: "fmlookup (rbroot tree) (offset (entries g e)) = Some d"
    and un: "zswap_store_unlink_dup tree d g = (tree', g')"
  shows "zswap_store_insert tree e g =
         (tree'\<lparr>rbroot := fmupd (offset (entries g e)) e (rbroot tree')\<rparr>, g')"
proof -
  note p = zswap_store_unlink_dup_props [OF un]
  have off: "offset (entries g' e) = offset (entries g e)"
    by (simp add: p(4))
  have "fmlookup (rbroot tree') (offset (entries g' e)) = None"
    using dup by (simp add: off p(1) rb_erase_lookup)
  then have "zswap_store_insert tree' e g' =
      (tree'\<lparr>rbroot := fmupd (offset (entries g' e)) e (rbroot tree')\<rparr>, g')"
    by (rule zswap_store_insert_new)
  then show ?thesis
    using dup un by (subst zswap_store_insert.simps) (simp add: zswap_rb_insert_def off)
qed

text \<open>The entry that \<open>zswap_store_map\<close> leaves in the index.\<close>

lemma zswap_store_map_installed:
  assumes "g' = zswap_store_map type off e h dst dlen wa tmppage tree g"
  shows "\<exists>tree'. zswap_trees g' type = Some tree' \<and>
           fmlookup (rbroot tree') off = Some e \<and>
           objs (pool tree') h = take (unat dlen) dst \<and>
           offset (entries g' e) = off \<and> handle (entries g' e) = h \<and>
           entry_length (entries g' e) = dlen"
proof -
  let ?tree1 = "tree\<lparr>pool := zs_store h (take (unat dlen) dst) (pool tree)\<rparr>"
  let ?g1 = "if wa then zswap_tmppage_free tmppage g else put_cpu_var g"
  let ?g2 = "?g1\<lparr>entries := (entries ?g1)
       (e := (entries ?g1 e)\<lparr>offset := off, handle := h, entry_length := dlen\<rparr>)\<rparr>"
  obtain tree2 g3 where ins: "zswap_store_insert ?tree1 e ?g2 = (tree2, g3)"
    by (cases "zswap_store_insert ?tree1 e ?g2") auto
  have g': "g' = g3\<lparr>zswap_stored_pages := zswap_stored_pages g3 + 1,
       zswap_trees := (zswap_trees g3)(type \<mapsto> tree2\<lparr>lru := lru tree2 @ [e]\<rparr>)\<rparr>"
    using assms ins by (simp add: zswap_store_map_def Let_def)
  have off: "offset (entries ?g2 e) = off"
    by simp
  have "fmlookup (rbroot tree2) off = Some e \<and> objs (pool tree2) h = take (unat dlen) dst \<and>
        offset (entries g3 e) = off \<and> handle (entries g3 e) = h \<and>
        entry_length (entries g3 e) = dlen"
  proof (cases "fmlookup (rbroot ?tree1) off")
    case None
    then have "zswap_store_insert ?tree1 e ?g2 =
        (?tree1\<lparr>rbroot := fmupd (offset (entries ?g2 e)) e (rbroot ?tree1)\<rparr>, ?g2)"
      by (intro zswap_store_insert_new) (simp only: off)
    with ins show ?thesis
      by (auto simp: zs_store_def)
  next
    case (Some d)
    obtain tree3 g4 where un: "zswap_store_unlink_dup ?tree1 d ?g2 = (tree3, g4)"
      by (cases "zswap_store_unlink_dup ?tree1 d ?g2") auto
    have "fmlookup (rbroot ?tree1) (offset (entries ?g2 e)) = Some d"
      using Some by (simp only: off)
    from zswap_store_insert_dup [OF this un] ins
    have res: "tree2 = tree3\<lparr>rbroot := fmupd off e (rbroot tree3)\<rparr>" "g3 = g4"
      by (simp_all only: off prod.inject)
    note p = zswap_store_unlink_dup_props [OF un]
    show ?thesis
      using res p(3) p(4) by (auto simp: zs_store_def)
  qed
  with g' show ?thesis
    by simp
qed

subsection \<open>Load and invalidate on a missing area\<close>

text \<open>
  Claim C10. \<^verbatim>\<open>zswap_frontswap_load\<close> and \<^verbatim>\<open>zswap_frontswap_invalidate_page\<close>
  dereference the tree of the type without a test: they fault with a NULL
  dereference exactly when no area is registered for the type. On such a type
  \<^verbatim>\<open>zswap_frontswap_store\<close> returns \<^verbatim>\<open>-ENODEV\<close> and
  \<^verbatim>\<open>zswap_frontswap_invalidate_area\<close> returns, both leaving the state as it
  was.
\<close>

theorem zswap_load_invalidate_need_area:
  "(zswap_frontswap_load tfm type off page g = Inl NULL_DEREF \<longleftrightarrow> zswap_trees g type = None) \<and>
   (zswap_frontswap_invalidate_page type off g = Inl NULL_DEREF \<longleftrightarrow> zswap_trees g type = None) \<and>
   (zswap_trees g type = None \<longrightarrow>
      zswap_frontswap_store tfm env type off page g = Inr (- ENODEV, g) \<and>
      zswap_frontswap_invalidate_area type g = g)"
  by (auto simp: zswap_frontswap_load_def zswap_frontswap_invalidate_page_def
      zswap_frontswap_store_def zswap_frontswap_invalidate_area_def Let_def
      split: option.splits prod.splits if_splits)

theorem zswap_load_invalidate_need_area_witness:
  "zswap_frontswap_load fill_tfm 0 48 (replicate PAGE_SIZE 0) zswap_boot = Inl NULL_DEREF \<and>
   zswap_frontswap_invalidate_page 0 48 zswap_boot = Inl NULL_DEREF \<and>
   zswap_frontswap_store fill_tfm (plain_env 7 5) 0 48 (replicate PAGE_SIZE 65) zswap_boot =
     Inr (- ENODEV, zswap_boot) \<and>
   zswap_frontswap_invalidate_area 0 zswap_boot = zswap_boot \<and>
   zswap_frontswap_load fill_tfm 0 48 (replicate PAGE_SIZE 0) zswap_area0 \<noteq> Inl NULL_DEREF"
  using zswap_load_invalidate_need_area [of fill_tfm 0 48 "replicate PAGE_SIZE 0" zswap_boot
      "plain_env 7 5"]
    zswap_load_invalidate_need_area [of fill_tfm 0 48 "replicate PAGE_SIZE 65" zswap_boot
      "plain_env 7 5"]
    zswap_load_invalidate_need_area [of fill_tfm 0 48 "replicate PAGE_SIZE 0" zswap_area0
      "plain_env 7 5"]
  by (simp add: zswap_boot_def zswap_area0_def zswap_frontswap_init_def)

subsection \<open>Load\<close>

lemma zswap_frontswap_load_hit:
  assumes "zswap_trees g type = Some tree"
    and "fmlookup (rbroot tree) off = Some e"
  shows "\<exists>g'. zswap_frontswap_load tfm type off page g =
           Inr (0, overwrite (snd (crypto_comp_decompress tfm
                  (take (unat (entry_length (entries g e)))
                     (objs (pool tree) (handle (entries g e)))))) page, g')"
  using assms
  by (auto simp: zswap_frontswap_load_def zswap_rb_search_def zswap_entry_get_def
      zswap_entry_put_def zswap_comp_op_def zswap_free_entry_def Let_def
      split: prod.splits)

lemma zswap_frontswap_load_miss:
  assumes "zswap_trees g type = Some tree"
    and "fmlookup (rbroot tree) off = None"
  shows "zswap_frontswap_load tfm type off page g = Inr (- 1, page, g)"
  using assms by (simp add: zswap_frontswap_load_def zswap_rb_search_def)

text \<open>
  Claim C4, at an input where the code departs from it. Area 0 holds an entry
  at offset \<^verbatim>\<open>0x30\<close> and the decompressor fails with \<^verbatim>\<open>-EINVAL\<close>, writing no
  byte. \<^verbatim>\<open>zswap_frontswap_load\<close> returns 0 all the same, the destination page is
  as it was and the entry is back on the LRU: the return value of
  \<^verbatim>\<open>zswap_comp_op\<close> and the length it reports are never looked at.
\<close>

theorem zswap_load_ignores_decompress_error:
  "crypto_comp_decompress broken_tfm [65] = (- EINVAL, []) \<and>
   zswap_frontswap_load broken_tfm 0 48 (replicate PAGE_SIZE 0) zswap_one_entry =
     Inr (0, replicate PAGE_SIZE 0, zswap_one_entry)"
proof -
  have "(entries zswap_boot)
          (7 := \<lparr>refcount = 1, offset = 48, handle = 5, entry_length = 1 :: 32 word\<rparr>,
           7 := \<lparr>refcount = 2, offset = 48, handle = 5, entry_length = 1\<rparr>,
           7 := \<lparr>refcount = 1, offset = 48, handle = 5, entry_length = 1\<rparr>) =
        (entries zswap_boot)
          (7 := \<lparr>refcount = 1, offset = 48, handle = 5, entry_length = 1\<rparr>)"
    by simp
  then show ?thesis
    by (simp add: zswap_eval)
qed

subsection \<open>Invalidate\<close>

lemma zswap_frontswap_invalidate_page_absent:
  assumes "zswap_trees g type = Some tree"
    and "fmlookup (rbroot tree) off = None"
  shows "zswap_frontswap_invalidate_page type off g = Inr g"
  using assms by (simp add: zswap_frontswap_invalidate_page_def zswap_rb_search_def)

lemma zswap_frontswap_invalidate_page_erases:
  assumes "zswap_trees g type = Some tree"
  shows "\<exists>g1 tree1. zswap_frontswap_invalidate_page type off g = Inr g1 \<and>
           zswap_trees g1 type = Some tree1 \<and> fmlookup (rbroot tree1) off = None"
proof (cases "fmlookup (rbroot tree) off")
  case None
  with assms show ?thesis
    by (simp add: zswap_frontswap_invalidate_page_absent)
next
  case (Some e)
  with assms show ?thesis
    by (auto simp: zswap_frontswap_invalidate_page_def zswap_rb_search_def Let_def
        zswap_entry_put_def zswap_free_entry_def zswap_entry_cache_free_def rb_erase_lookup)
qed

text \<open>
  Claim C6. On a registered area \<^verbatim>\<open>zswap_frontswap_invalidate_page\<close> returns
  a state on which a second call at the same offset changes nothing, and on
  which a load at that offset returns \<open>-1\<close>, leaving the page and the state
  untouched.
\<close>

theorem zswap_invalidate_page_idempotent:
  assumes "zswap_trees g type \<noteq> None"
  shows "case zswap_frontswap_invalidate_page type off g of
           Inl f \<Rightarrow> False
         | Inr g1 \<Rightarrow>
             zswap_frontswap_invalidate_page type off g1 = Inr g1 \<and>
             zswap_frontswap_load tfm type off page g1 = Inr (- 1, page, g1)"
proof -
  from assms obtain tree where "zswap_trees g type = Some tree"
    by auto
  from zswap_frontswap_invalidate_page_erases [OF this, of off]
  obtain g1 tree1 where inv: "zswap_frontswap_invalidate_page type off g = Inr g1"
    and tree1: "zswap_trees g1 type = Some tree1"
    and gone: "fmlookup (rbroot tree1) off = None"
    by blast
  from tree1 gone have "zswap_frontswap_invalidate_page type off g1 = Inr g1"
    by (rule zswap_frontswap_invalidate_page_absent)
  moreover from tree1 gone have "zswap_frontswap_load tfm type off page g1 = Inr (- 1, page, g1)"
    by (rule zswap_frontswap_load_miss)
  ultimately show ?thesis
    using inv by simp
qed

theorem zswap_invalidate_page_idempotent_witness:
  "zswap_trees zswap_one_entry 0 \<noteq> None \<and>
   (case zswap_frontswap_invalidate_page 0 48 zswap_one_entry of
      Inl f \<Rightarrow> False
    | Inr g1 \<Rightarrow>
        zswap_frontswap_invalidate_page 0 48 g1 = Inr g1 \<and>
        zswap_frontswap_load fill_tfm 0 48 (replicate PAGE_SIZE 0) g1 =
          Inr (- 1, replicate PAGE_SIZE 0, g1))"
proof -
  have area: "zswap_trees zswap_one_entry 0 \<noteq> None"
    by (simp add: zswap_one_entry_def)
  from area zswap_invalidate_page_idempotent [OF area, of 48 fill_tfm "replicate PAGE_SIZE 0"]
  show ?thesis
    by simp
qed

subsection \<open>Writeback\<close>

lemma zswap_writeback_entry_frame:
  assumes "zswap_writeback_entry tfm io tree e g = Inr (ret, g')"
  shows "g' = g \<or> g' = g\<lparr>zswap_outstanding_writebacks := zswap_outstanding_writebacks g + 1\<rparr>"
  using assms
  by (auto simp: zswap_writeback_entry_def split: zswap_get_swap_ret.splits prod.splits if_splits)

lemma zswap_writeback_release_frame:
  assumes "zswap_writeback_release ret tree e g = (freed, tree', g')"
  shows "zswap_tmppage_list g' = zswap_tmppage_list g \<and> preempt_count g' = preempt_count g \<and>
         zswap_entry_cache g' \<subseteq> zswap_entry_cache g \<and>
         rbroot tree' \<subseteq>\<^sub>f rbroot tree \<and>
         allocated (pool tree') \<subseteq> allocated (pool tree) \<and>
         zswap_trees g' = zswap_trees g"
  using assms
  by (auto simp: zswap_writeback_release_def zswap_entry_put_def zswap_free_entry_def
      zswap_entry_cache_free_def zs_free_def Let_def rb_erase_subset fmsubset_self
      split: if_splits prod.splits)

text \<open>What a run of the writeback loop leaves alone, and what it can only shrink.\<close>

lemma zswap_writeback_entries_loop_frame:
  assumes "zswap_writeback_entries_loop tfm io n i tree g freed_nr = Inr (freed', tree', g')"
  shows "zswap_tmppage_list g' = zswap_tmppage_list g \<and> preempt_count g' = preempt_count g \<and>
         zswap_entry_cache g' \<subseteq> zswap_entry_cache g \<and>
         rbroot tree' \<subseteq>\<^sub>f rbroot tree \<and>
         allocated (pool tree') \<subseteq> allocated (pool tree) \<and>
         zswap_trees g' = zswap_trees g"
  using assms
proof (induction n arbitrary: i tree g freed_nr)
  case 0
  then show ?case by (simp add: fmsubset_self)
next
  case (Suc n)
  show ?case
  proof (cases "ZSWAP_MAX_OUTSTANDING_FLUSHES < sint (zswap_outstanding_writebacks g)")
    case True
    with Suc.prems show ?thesis by (simp add: fmsubset_self)
  next
    case False
    note nobreak = this
    show ?thesis
    proof (cases "lru tree")
      case Nil
      with Suc.prems nobreak show ?thesis
        by (simp add: zswap_writeback_dequeue_def fmsubset_self)
    next
      case (Cons e rest)
      let ?tree1 = "tree\<lparr>lru := list_del_init e (lru tree)\<rparr>"
      let ?g1 = "zswap_entry_get e g"
      from Suc.prems nobreak Cons obtain ret g2 where
        wb: "zswap_writeback_entry tfm (io i) ?tree1 e ?g1 = Inr (ret, g2)"
        by (auto simp: zswap_writeback_dequeue_def split: sum.splits)
      obtain freed tree3 g3 where
        rel: "zswap_writeback_release ret ?tree1 e g2 = (freed, tree3, g3)"
        by (cases "zswap_writeback_release ret ?tree1 e g2") auto
      from Suc.prems nobreak Cons wb rel have
        rec: "zswap_writeback_entries_loop tfm io n (Suc i) tree3 g3
                (if freed then freed_nr + 1 else freed_nr) = Inr (freed', tree', g')"
        by (simp add: zswap_writeback_dequeue_def)
      note ih = Suc.IH [OF rec]
      note f1 = zswap_writeback_entry_frame [OF wb]
      note f2 = zswap_writeback_release_frame [OF rel]
      have g2: "zswap_tmppage_list g2 = zswap_tmppage_list g" "preempt_count g2 = preempt_count g"
        "zswap_entry_cache g2 = zswap_entry_cache g" "zswap_trees g2 = zswap_trees g"
        using f1 by (auto simp: zswap_entry_get_def)
      from ih f2 g2 show ?thesis
        by (auto intro: fmsubset_chain)
    qed
  qed
qed

text \<open>
  The second lock region by cases on the refcount \<open>r\<close> it reads after its one
  or two puts.
\<close>

lemma zswap_writeback_release_dispatch:
  fixes ret :: int and tree :: zswap_tree and e :: eptr and g :: zswap
  defines "r \<equiv> refcount (entries g e) - (if ret = 0 then 2 else 1)"
  defines "g_r \<equiv> g\<lparr>entries := (entries g)(e := (entries g e)\<lparr>refcount := r\<rparr>)\<rparr>"
  defines "g_free \<equiv> g_r\<lparr>zswap_entry_cache := zswap_entry_cache g - {e},
                         zswap_stored_pages := zswap_stored_pages g - 1\<rparr>"
  shows "zswap_writeback_release ret tree e g =
     (if r = 1 then (False, tree\<lparr>lru := e # lru tree\<rparr>, g_r)
      else if r = 0
      then (True, tree\<lparr>rbroot := rb_erase e (rbroot tree),
                        pool := zs_free (handle (entries g e)) (pool tree)\<rparr>, g_free)
      else if sint r < 0
      then (True, tree\<lparr>pool := zs_free (handle (entries g e)) (pool tree)\<rparr>, g_free)
      else (False, tree, g_r))"
proof -
  have z: "sint r \<le> 0 \<longleftrightarrow> r = 0 \<or> sint r < 0"
    by (auto simp: order_le_less signed_eq_0_iff)
  have rel: "zswap_writeback_release ret tree e g =
      (let tree1 = (if r = 1 then tree\<lparr>lru := e # lru tree\<rparr> else tree);
           tree2 = (if r = 0 then tree1\<lparr>rbroot := rb_erase e (rbroot tree1)\<rparr> else tree1)
       in if sint r \<le> 0
          then (case zswap_free_entry tree2 e g_r of (tree3, g3) \<Rightarrow> (True, tree3, g3))
          else (False, tree2, g_r))"
    by (simp add: zswap_writeback_release_def zswap_entry_put_def r_def g_r_def Let_def)
  show ?thesis
    unfolding rel z
    by (simp add: zswap_free_entry_def zswap_entry_cache_free_def g_r_def g_free_def Let_def)
qed

lemma zswap_writeback_release_count:
  assumes "zswap_writeback_release ret tree e g = (freed, tree', g')"
  shows "zswap_stored_pages g' = zswap_stored_pages g - (if freed then 1 else 0) \<and>
         zswap_entry_cache g' =
           (if freed then zswap_entry_cache g - {e} else zswap_entry_cache g) \<and>
         set (lru tree') \<subseteq> insert e (set (lru tree)) \<and>
         (freed \<longrightarrow> lru tree' = lru tree) \<and>
         zswap_duplicate_entry g' = zswap_duplicate_entry g"
  using assms unfolding zswap_writeback_release_dispatch
  by (auto split: if_splits)

lemma zswap_writeback_entry_count:
  assumes "zswap_writeback_entry tfm io tree e g = Inr (ret, g')"
  shows "zswap_stored_pages g' = zswap_stored_pages g \<and>
         zswap_entry_cache g' = zswap_entry_cache g \<and>
         entries g' = entries g \<and>
         zswap_duplicate_entry g' = zswap_duplicate_entry g"
  using zswap_writeback_entry_frame [OF assms] by auto

text \<open>
  What a run of the loop returns is the number of entries it freed: the stored
  pages go down by it, and so does the set of allocated entries when every
  entry on the LRU is allocated.
\<close>

lemma zswap_writeback_entries_loop_count:
  assumes "zswap_writeback_entries_loop tfm io n i tree g freed_nr = Inr (freed', tree', g')"
  shows "freed_nr \<le> freed' \<and> freed' \<le> freed_nr + n \<and>
         zswap_stored_pages g' = zswap_stored_pages g - of_nat (freed' - freed_nr) \<and>
         zswap_duplicate_entry g' = zswap_duplicate_entry g"
  using assms
proof (induction n arbitrary: i tree g freed_nr)
  case 0
  then show ?case by simp
next
  case (Suc n)
  show ?case
  proof (cases "ZSWAP_MAX_OUTSTANDING_FLUSHES < sint (zswap_outstanding_writebacks g) \<or>
      lru tree = []")
    case True
    with Suc.prems show ?thesis
      by (auto simp: zswap_writeback_dequeue_def split: if_splits)
  next
    case False
    then obtain e rest where lru: "lru tree = e # rest"
      by (cases "lru tree") auto
    let ?tree1 = "tree\<lparr>lru := list_del_init e (lru tree)\<rparr>"
    from Suc.prems False lru obtain ret g2 where
      wb: "zswap_writeback_entry tfm (io i) ?tree1 e (zswap_entry_get e g) = Inr (ret, g2)"
      by (auto simp: zswap_writeback_dequeue_def split: sum.splits)
    obtain freed tree3 g3 where
      rel: "zswap_writeback_release ret ?tree1 e g2 = (freed, tree3, g3)"
      by (cases "zswap_writeback_release ret ?tree1 e g2") auto
    from False lru wb rel Suc.prems have
      rec: "zswap_writeback_entries_loop tfm io n (Suc i) tree3 g3
         (if freed then freed_nr + 1 else freed_nr) = Inr (freed', tree', g')"
      by (simp add: zswap_writeback_dequeue_def)
    note ih = Suc.IH [OF rec]
    note c1 = zswap_writeback_entry_count [OF wb]
    note c2 = zswap_writeback_release_count [OF rel]
    have g1: "zswap_stored_pages (zswap_entry_get e g) = zswap_stored_pages g"
      "zswap_duplicate_entry (zswap_entry_get e g) = zswap_duplicate_entry g"
      by (simp_all add: zswap_entry_get_def)
    show ?thesis
    proof (cases freed)
      case True
      with ih have le: "freed_nr + 1 \<le> freed'" and up: "freed' \<le> freed_nr + 1 + n"
        and st: "zswap_stored_pages g' = zswap_stored_pages g3 - of_nat (freed' - (freed_nr + 1))"
        and du: "zswap_duplicate_entry g' = zswap_duplicate_entry g3"
        by simp_all
      from le have "freed' - freed_nr = Suc (freed' - (freed_nr + 1))"
        by simp
      then have "(of_nat (freed' - freed_nr) :: 32 word) = of_nat (freed' - (freed_nr + 1)) + 1"
        by simp
      with st c1 c2 g1 True have
        "zswap_stored_pages g' = zswap_stored_pages g - of_nat (freed' - freed_nr)"
        by simp
      with le up du c1 c2 g1 show ?thesis
        by simp
    next
      case False
      with ih c1 c2 g1 show ?thesis
        by simp
    qed
  qed
qed

lemma zswap_writeback_entries_loop_cache:
  assumes "zswap_writeback_entries_loop tfm io n i tree g freed_nr = Inr (freed', tree', g')"
    and "set (lru tree) \<subseteq> zswap_entry_cache g"
  shows "set (lru tree') \<subseteq> zswap_entry_cache g' \<and>
         zswap_entry_cache g' \<subseteq> zswap_entry_cache g \<and>
         finite (zswap_entry_cache g - zswap_entry_cache g') \<and>
         card (zswap_entry_cache g - zswap_entry_cache g') = freed' - freed_nr"
  using assms
proof (induction n arbitrary: i tree g freed_nr)
  case 0
  then show ?case by simp
next
  case (Suc n)
  show ?case
  proof (cases "ZSWAP_MAX_OUTSTANDING_FLUSHES < sint (zswap_outstanding_writebacks g) \<or>
      lru tree = []")
    case True
    with Suc.prems show ?thesis
      by (auto simp: zswap_writeback_dequeue_def split: if_splits)
  next
    case False
    then obtain e rest where lru: "lru tree = e # rest"
      by (cases "lru tree") auto
    let ?tree1 = "tree\<lparr>lru := list_del_init e (lru tree)\<rparr>"
    from Suc.prems(1) False lru obtain ret g2 where
      wb: "zswap_writeback_entry tfm (io i) ?tree1 e (zswap_entry_get e g) = Inr (ret, g2)"
      by (auto simp: zswap_writeback_dequeue_def split: sum.splits)
    obtain freed tree3 g3 where
      rel: "zswap_writeback_release ret ?tree1 e g2 = (freed, tree3, g3)"
      by (cases "zswap_writeback_release ret ?tree1 e g2") auto
    from False lru wb rel Suc.prems(1) have
      rec: "zswap_writeback_entries_loop tfm io n (Suc i) tree3 g3
         (if freed then freed_nr + 1 else freed_nr) = Inr (freed', tree', g')"
      by (simp add: zswap_writeback_dequeue_def)
    note c1 = zswap_writeback_entry_count [OF wb]
    note c2 = zswap_writeback_release_count [OF rel]
    have g1: "zswap_entry_cache (zswap_entry_get e g) = zswap_entry_cache g"
      by (simp add: zswap_entry_get_def)
    from lru Suc.prems(2) have e: "e \<in> zswap_entry_cache g"
      by simp
    have l1: "set (lru ?tree1) = set (lru tree) - {e}"
      by (simp add: list_del_init_def)
    show ?thesis
    proof (cases freed)
      case True
      with c1 c2 g1 have c3: "zswap_entry_cache g3 = zswap_entry_cache g - {e}"
        and l3: "lru tree3 = lru ?tree1"
        by simp_all
      from l3 l1 c3 Suc.prems(2) have "set (lru tree3) \<subseteq> zswap_entry_cache g3"
        by auto
      from Suc.IH [OF rec this] True have
        ih: "set (lru tree') \<subseteq> zswap_entry_cache g'"
          "zswap_entry_cache g' \<subseteq> zswap_entry_cache g3"
          "finite (zswap_entry_cache g3 - zswap_entry_cache g')"
          "card (zswap_entry_cache g3 - zswap_entry_cache g') = freed' - (freed_nr + 1)"
        by simp_all
      from zswap_writeback_entries_loop_count [OF rec] True have le: "freed_nr + 1 \<le> freed'"
        by simp
      from ih(2) c3 e have split:
        "zswap_entry_cache g - zswap_entry_cache g' =
           insert e (zswap_entry_cache g3 - zswap_entry_cache g')"
        by auto
      have "e \<notin> zswap_entry_cache g3 - zswap_entry_cache g'"
        using c3 by simp
      with ih(3,4) split le have
        "finite (zswap_entry_cache g - zswap_entry_cache g')"
        "card (zswap_entry_cache g - zswap_entry_cache g') = freed' - freed_nr"
        by simp_all
      with ih(1,2) c3 show ?thesis
        by auto
    next
      case False
      with c1 c2 g1 have c3: "zswap_entry_cache g3 = zswap_entry_cache g"
        and l3: "set (lru tree3) \<subseteq> insert e (set (lru ?tree1))"
        by simp_all
      from l3 l1 e c3 Suc.prems(2) have "set (lru tree3) \<subseteq> zswap_entry_cache g3"
        by auto
      from Suc.IH [OF rec this] False c3 show ?thesis
        by simp
    qed
  qed
qed

text \<open>
  The loop removes an entry from the index only in freeing it, under all its
  keys at once, and it puts on the LRU only what it took from it.
\<close>

lemma zswap_writeback_release_erased:
  assumes "zswap_writeback_release ret tree e g = (freed, tree', g')"
  shows "rbroot tree' = rbroot tree \<or>
         (rbroot tree' = rb_erase e (rbroot tree) \<and> freed)"
  using assms unfolding zswap_writeback_release_dispatch
  by (auto split: if_splits)

lemma zswap_writeback_entries_loop_lru:
  assumes "zswap_writeback_entries_loop tfm io n i tree g freed_nr = Inr (freed', tree', g')"
  shows "set (lru tree') \<subseteq> set (lru tree)"
  using assms
proof (induction n arbitrary: i tree g freed_nr)
  case 0
  then show ?case by simp
next
  case (Suc n)
  show ?case
  proof (cases "ZSWAP_MAX_OUTSTANDING_FLUSHES < sint (zswap_outstanding_writebacks g) \<or>
      lru tree = []")
    case True
    with Suc.prems show ?thesis
      by (auto simp: zswap_writeback_dequeue_def split: if_splits)
  next
    case False
    then obtain e rest where lru: "lru tree = e # rest"
      by (cases "lru tree") auto
    let ?tree1 = "tree\<lparr>lru := list_del_init e (lru tree)\<rparr>"
    from Suc.prems False lru obtain ret g2 where
      wb: "zswap_writeback_entry tfm (io i) ?tree1 e (zswap_entry_get e g) = Inr (ret, g2)"
      by (auto simp: zswap_writeback_dequeue_def split: sum.splits)
    obtain freed tree3 g3 where
      rel: "zswap_writeback_release ret ?tree1 e g2 = (freed, tree3, g3)"
      by (cases "zswap_writeback_release ret ?tree1 e g2") auto
    from False lru wb rel Suc.prems have
      rec: "zswap_writeback_entries_loop tfm io n (Suc i) tree3 g3
         (if freed then freed_nr + 1 else freed_nr) = Inr (freed', tree', g')"
      by (simp add: zswap_writeback_dequeue_def)
    from zswap_writeback_release_count [OF rel] lru
    have "set (lru tree3) \<subseteq> set (lru tree)"
      by (auto simp: list_del_init_def)
    with Suc.IH [OF rec] show ?thesis
      by blast
  qed
qed

lemma zswap_writeback_entries_loop_erased:
  assumes "zswap_writeback_entries_loop tfm io n i tree g freed_nr = Inr (freed', tree', g')"
  shows "(\<forall>k. (fmlookup (rbroot tree') k = Some d) = (fmlookup (rbroot tree) k = Some d)) \<or>
         ((\<forall>k. fmlookup (rbroot tree') k \<noteq> Some d) \<and> d \<notin> set (lru tree') \<and>
          d \<notin> zswap_entry_cache g')"
  using assms
proof (induction n arbitrary: i tree g freed_nr)
  case 0
  then show ?case by simp
next
  case (Suc n)
  show ?case
  proof (cases "ZSWAP_MAX_OUTSTANDING_FLUSHES < sint (zswap_outstanding_writebacks g) \<or>
      lru tree = []")
    case True
    with Suc.prems show ?thesis
      by (auto simp: zswap_writeback_dequeue_def split: if_splits)
  next
    case False
    then obtain e rest where lru: "lru tree = e # rest"
      by (cases "lru tree") auto
    let ?tree1 = "tree\<lparr>lru := list_del_init e (lru tree)\<rparr>"
    from Suc.prems False lru obtain ret g2 where
      wb: "zswap_writeback_entry tfm (io i) ?tree1 e (zswap_entry_get e g) = Inr (ret, g2)"
      by (auto simp: zswap_writeback_dequeue_def split: sum.splits)
    obtain freed tree3 g3 where
      rel: "zswap_writeback_release ret ?tree1 e g2 = (freed, tree3, g3)"
      by (cases "zswap_writeback_release ret ?tree1 e g2") auto
    from False lru wb rel Suc.prems have
      rec: "zswap_writeback_entries_loop tfm io n (Suc i) tree3 g3
         (if freed then freed_nr + 1 else freed_nr) = Inr (freed', tree', g')"
      by (simp add: zswap_writeback_dequeue_def)
    note ih = Suc.IH [OF rec]
    note c2 = zswap_writeback_release_count [OF rel]
    show ?thesis
    proof (cases "rbroot tree3 = rb_erase e (rbroot tree) \<and> freed \<and> e = d")
      case True
      then have "\<forall>k. fmlookup (rbroot tree3) k \<noteq> Some d"
        by (simp add: rb_erase_lookup)
      moreover from True c2 have "d \<notin> set (lru tree3)" "d \<notin> zswap_entry_cache g3"
        by (simp_all add: list_del_init_def)
      moreover note zswap_writeback_entries_loop_frame [OF rec]
        zswap_writeback_entries_loop_lru [OF rec]
      ultimately have "(\<forall>k. fmlookup (rbroot tree') k \<noteq> Some d) \<and> d \<notin> set (lru tree') \<and>
          d \<notin> zswap_entry_cache g'"
        unfolding fmsubset_alt_def fmpred_iff by blast
      then show ?thesis
        by blast
    next
      case False
      with zswap_writeback_release_erased [OF rel]
      have "\<forall>k. (fmlookup (rbroot tree3) k = Some d) = (fmlookup (rbroot tree) k = Some d)"
        by (auto simp: rb_erase_lookup split: if_splits)
      with ih show ?thesis
        by simp
    qed
  qed
qed

text \<open>
  Claim C7. One round of the loop of \<^verbatim>\<open>zswap_writeback_entries\<close>, with
  \<open>Suc n\<close> rounds left, is an eviction attempt when the writebacks outstanding
  do not exceed the limit and the LRU has a head \<open>e\<close>; otherwise, and with no
  round left, the loop returns the count it has. The attempt takes \<open>e\<close> off
  the LRU, pins it and calls \<^verbatim>\<open>zswap_writeback_entry\<close>; a fault there is the
  result of the loop. When that call returns \<open>ret\<close>, the pin is dropped, and the
  reference of the creation too when \<open>ret\<close> is 0; let \<open>r\<close> be the refcount that
  results, a C \<^verbatim>\<open>int\<close>. With \<open>r\<close> above 1 (2 when a load is in progress)
  nothing else is done to the entry; with \<open>r = 1\<close> it is put back at the head
  of the LRU and kept; with \<open>r = 0\<close> it is erased from the index and freed with
  its handle, and counted; with \<open>r < 0\<close> it is freed with its handle and
  counted, the index being left as it is; and the loop goes on with the rounds
  left. What \<^verbatim>\<open>zswap_writeback_entries\<close> returns is at most the number asked
  for and is the number of entries freed: \<open>zswap_stored_pages\<close> has gone down
  by it and, when every entry on the LRU was allocated, exactly that many
  entries have left the set of allocated entries.
\<close>

theorem zswap_writeback_attempt_dispatch:
  fixes g g2 :: zswap and tree :: zswap_tree and e :: eptr and ret :: int
  defines "tree1 \<equiv> tree\<lparr>lru := list_del_init e (lru tree)\<rparr>"
  defines "r \<equiv> refcount (entries g e) - (if ret = 0 then 1 else 0)"
  defines "g_r \<equiv> g2\<lparr>entries := (entries g)(e := (entries g e)\<lparr>refcount := r\<rparr>)\<rparr>"
  defines "g_free \<equiv> g_r\<lparr>zswap_entry_cache := zswap_entry_cache g - {e},
                         zswap_stored_pages := zswap_stored_pages g - 1\<rparr>"
  shows
    "zswap_writeback_entries_loop tfm io 0 i tree g freed_nr = Inr (freed_nr, tree, g) \<and>
     (ZSWAP_MAX_OUTSTANDING_FLUSHES < sint (zswap_outstanding_writebacks g) \<or> lru tree = [] \<longrightarrow>
        zswap_writeback_entries_loop tfm io (Suc n) i tree g freed_nr = Inr (freed_nr, tree, g)) \<and>
     (\<not> ZSWAP_MAX_OUTSTANDING_FLUSHES < sint (zswap_outstanding_writebacks g) \<and>
      lru tree = e # rest \<and>
      zswap_writeback_entry tfm (io i) tree1 e (zswap_entry_get e g) = Inl f \<longrightarrow>
        zswap_writeback_entries_loop tfm io (Suc n) i tree g freed_nr = Inl f) \<and>
     (\<not> ZSWAP_MAX_OUTSTANDING_FLUSHES < sint (zswap_outstanding_writebacks g) \<and>
      lru tree = e # rest \<and>
      zswap_writeback_entry tfm (io i) tree1 e (zswap_entry_get e g) = Inr (ret, g2) \<longrightarrow>
        (1 < sint r \<longrightarrow>
           zswap_writeback_entries_loop tfm io (Suc n) i tree g freed_nr =
           zswap_writeback_entries_loop tfm io n (Suc i) tree1 g_r freed_nr) \<and>
        (r = 1 \<longrightarrow>
           zswap_writeback_entries_loop tfm io (Suc n) i tree g freed_nr =
           zswap_writeback_entries_loop tfm io n (Suc i)
             (tree1\<lparr>lru := e # lru tree1\<rparr>) g_r freed_nr) \<and>
        (r = 0 \<longrightarrow>
           zswap_writeback_entries_loop tfm io (Suc n) i tree g freed_nr =
           zswap_writeback_entries_loop tfm io n (Suc i)
             (tree1\<lparr>rbroot := rb_erase e (rbroot tree1),
                    pool := zs_free (handle (entries g e)) (pool tree1)\<rparr>)
             g_free (freed_nr + 1)) \<and>
        (sint r < 0 \<longrightarrow>
           zswap_writeback_entries_loop tfm io (Suc n) i tree g freed_nr =
           zswap_writeback_entries_loop tfm io n (Suc i)
             (tree1\<lparr>pool := zs_free (handle (entries g e)) (pool tree1)\<rparr>)
             g_free (freed_nr + 1))) \<and>
     (case zswap_writeback_entries tfm io tree g nr of
        Inl f \<Rightarrow> True
      | Inr (freed, tree', g') \<Rightarrow>
          freed \<le> nr \<and>
          zswap_stored_pages g' = zswap_stored_pages g - of_nat freed \<and>
          (set (lru tree) \<subseteq> zswap_entry_cache g \<longrightarrow>
             zswap_entry_cache g' \<subseteq> zswap_entry_cache g \<and>
             card (zswap_entry_cache g - zswap_entry_cache g') = freed))"
proof -
  have stop: "zswap_writeback_entries_loop tfm io (Suc n) i tree g freed_nr =
      Inr (freed_nr, tree, g)"
    if "ZSWAP_MAX_OUTSTANDING_FLUSHES < sint (zswap_outstanding_writebacks g) \<or> lru tree = []"
    using that by (auto simp: zswap_writeback_dequeue_def)
  have fault: "zswap_writeback_entries_loop tfm io (Suc n) i tree g freed_nr = Inl f"
    if "\<not> ZSWAP_MAX_OUTSTANDING_FLUSHES < sint (zswap_outstanding_writebacks g)"
      and "lru tree = e # rest"
      and "zswap_writeback_entry tfm (io i) tree1 e (zswap_entry_get e g) = Inl f"
    using that by (simp add: zswap_writeback_dequeue_def tree1_def)
  have attempt:
    "(1 < sint r \<longrightarrow>
           zswap_writeback_entries_loop tfm io (Suc n) i tree g freed_nr =
           zswap_writeback_entries_loop tfm io n (Suc i) tree1 g_r freed_nr) \<and>
        (r = 1 \<longrightarrow>
           zswap_writeback_entries_loop tfm io (Suc n) i tree g freed_nr =
           zswap_writeback_entries_loop tfm io n (Suc i)
             (tree1\<lparr>lru := e # lru tree1\<rparr>) g_r freed_nr) \<and>
        (r = 0 \<longrightarrow>
           zswap_writeback_entries_loop tfm io (Suc n) i tree g freed_nr =
           zswap_writeback_entries_loop tfm io n (Suc i)
             (tree1\<lparr>rbroot := rb_erase e (rbroot tree1),
                    pool := zs_free (handle (entries g e)) (pool tree1)\<rparr>)
             g_free (freed_nr + 1)) \<and>
        (sint r < 0 \<longrightarrow>
           zswap_writeback_entries_loop tfm io (Suc n) i tree g freed_nr =
           zswap_writeback_entries_loop tfm io n (Suc i)
             (tree1\<lparr>pool := zs_free (handle (entries g e)) (pool tree1)\<rparr>)
             g_free (freed_nr + 1))"
    if guard: "\<not> ZSWAP_MAX_OUTSTANDING_FLUSHES < sint (zswap_outstanding_writebacks g)"
      and lru: "lru tree = e # rest"
      and wb: "zswap_writeback_entry tfm (io i) tree1 e (zswap_entry_get e g) = Inr (ret, g2)"
  proof -
    have step: "zswap_writeback_entries_loop tfm io (Suc n) i tree g freed_nr =
       (case zswap_writeback_release ret tree1 e g2 of
          (freed, tree3, g3) \<Rightarrow>
            zswap_writeback_entries_loop tfm io n (Suc i) tree3 g3
              (if freed then freed_nr + 1 else freed_nr))"
      using guard lru wb by (simp add: zswap_writeback_dequeue_def tree1_def)
    from zswap_writeback_entry_count [OF wb] have
      g2: "entries g2 = (entries g)(e := (entries g e)\<lparr>refcount := refcount (entries g e) + 1\<rparr>)"
        "zswap_entry_cache g2 = zswap_entry_cache g"
        "zswap_stored_pages g2 = zswap_stored_pages g"
      by (simp_all add: zswap_entry_get_def)
    have r: "refcount (entries g2 e) - (if ret = 0 then 2 else 1) = r"
      by (simp add: g2 r_def)
    have h: "handle (entries g2 e) = handle (entries g e)"
      by (simp add: g2)
    have gr: "g2\<lparr>entries := (entries g2)(e := (entries g2 e)\<lparr>refcount := r\<rparr>)\<rparr> = g_r"
      by (simp add: g_r_def g2)
    have rel: "zswap_writeback_release ret tree1 e g2 =
       (if r = 1 then (False, tree1\<lparr>lru := e # lru tree1\<rparr>, g_r)
        else if r = 0
        then (True, tree1\<lparr>rbroot := rb_erase e (rbroot tree1),
                           pool := zs_free (handle (entries g e)) (pool tree1)\<rparr>, g_free)
        else if sint r < 0
        then (True, tree1\<lparr>pool := zs_free (handle (entries g e)) (pool tree1)\<rparr>, g_free)
        else (False, tree1, g_r))"
      by (simp only: zswap_writeback_release_dispatch r h gr g2(2,3) g_free_def)
    have one: "sint (1 :: 32 word) = 1" and zero: "sint (0 :: 32 word) = 0"
      by simp_all
    have "1 < sint r \<longrightarrow>
           zswap_writeback_entries_loop tfm io (Suc n) i tree g freed_nr =
           zswap_writeback_entries_loop tfm io n (Suc i) tree1 g_r freed_nr"
      unfolding step rel using one zero by auto
    moreover have "r = 1 \<longrightarrow>
           zswap_writeback_entries_loop tfm io (Suc n) i tree g freed_nr =
           zswap_writeback_entries_loop tfm io n (Suc i)
             (tree1\<lparr>lru := e # lru tree1\<rparr>) g_r freed_nr"
      unfolding step rel by simp
    moreover have "r = 0 \<longrightarrow>
           zswap_writeback_entries_loop tfm io (Suc n) i tree g freed_nr =
           zswap_writeback_entries_loop tfm io n (Suc i)
             (tree1\<lparr>rbroot := rb_erase e (rbroot tree1),
                    pool := zs_free (handle (entries g e)) (pool tree1)\<rparr>)
             g_free (freed_nr + 1)"
      unfolding step rel by simp
    moreover have "sint r < 0 \<longrightarrow>
           zswap_writeback_entries_loop tfm io (Suc n) i tree g freed_nr =
           zswap_writeback_entries_loop tfm io n (Suc i)
             (tree1\<lparr>pool := zs_free (handle (entries g e)) (pool tree1)\<rparr>)
             g_free (freed_nr + 1)"
      unfolding step rel using one zero by auto
    ultimately show ?thesis
      by blast
  qed
  have engine: "case zswap_writeback_entries tfm io tree g nr of
        Inl f \<Rightarrow> True
      | Inr (freed, tree', g') \<Rightarrow>
          freed \<le> nr \<and>
          zswap_stored_pages g' = zswap_stored_pages g - of_nat freed \<and>
          (set (lru tree) \<subseteq> zswap_entry_cache g \<longrightarrow>
             zswap_entry_cache g' \<subseteq> zswap_entry_cache g \<and>
             card (zswap_entry_cache g - zswap_entry_cache g') = freed)"
  proof (cases "zswap_writeback_entries tfm io tree g nr")
    case (Inl f)
    then show ?thesis by simp
  next
    case (Inr res)
    obtain freed tree' g' where res: "res = (freed, tree', g')"
      by (cases res) auto
    from Inr res have
      run: "zswap_writeback_entries_loop tfm io nr 0 tree g 0 = Inr (freed, tree', g')"
      by (simp add: zswap_writeback_entries_def)
    from zswap_writeback_entries_loop_count [OF run]
      zswap_writeback_entries_loop_cache [OF run]
    show ?thesis
      by (simp add: Inr res)
  qed
  from stop fault attempt engine show ?thesis
    by (simp only: zswap_writeback_entries_loop.simps(1) simp_thms) blast
qed

theorem zswap_writeback_attempt_dispatch_witness:
  "zswap_writeback_entries_loop fill_tfm no_writeback (Suc 0) 0 zswap_one_tree
       (zswap_one_entry_ref 2) 0 =
     Inr (0, zswap_one_tree\<lparr>lru := []\<rparr>, zswap_one_entry_ref 2) \<and>
   zswap_writeback_entries_loop fill_tfm no_writeback (Suc 0) 0 zswap_one_tree
       zswap_one_entry 0 =
     Inr (0, zswap_one_tree, zswap_one_entry) \<and>
   zswap_writeback_entries_loop fill_tfm new_writeback (Suc 0) 0 zswap_one_tree
       zswap_one_entry 0 =
     Inr (1,
          zswap_one_tree\<lparr>rbroot := fmempty, lru := [],
                          pool := zs_free 5 (pool zswap_one_tree)\<rparr>,
          (zswap_one_entry_ref 0)\<lparr>zswap_outstanding_writebacks := 1,
                                   zswap_entry_cache := {}, zswap_stored_pages := 0\<rparr>) \<and>
   zswap_writeback_entries_loop fill_tfm new_writeback (Suc 0) 0 zswap_one_tree
       (zswap_one_entry_ref 0) 0 =
     Inr (1,
          zswap_one_tree\<lparr>lru := [], pool := zs_free 5 (pool zswap_one_tree)\<rparr>,
          (zswap_one_entry_ref (- 1))\<lparr>zswap_outstanding_writebacks := 1,
                                       zswap_entry_cache := {}, zswap_stored_pages := 0\<rparr>) \<and>
   (case zswap_writeback_entries fill_tfm new_writeback zswap_one_tree zswap_one_entry 16 of
      Inl f \<Rightarrow> False
    | Inr (freed, tree', g') \<Rightarrow>
        freed = 1 \<and> zswap_stored_pages g' = 0 \<and> zswap_entry_cache g' = {}) \<and>
   zswap_writeback_entries fill_tfm no_writeback zswap_one_tree zswap_one_entry 16 =
     Inr (0, zswap_one_tree, zswap_one_entry)"
proof -
  have "zswap_writeback_entries_loop fill_tfm no_writeback (Suc 0) 0 zswap_one_tree
       (zswap_one_entry_ref 2) 0 =
     Inr (0, zswap_one_tree\<lparr>lru := []\<rparr>, zswap_one_entry_ref 2)"
    using zswap_writeback_attempt_dispatch [where tfm = fill_tfm and io = no_writeback
      and n = 0 and i = 0 and tree = zswap_one_tree and g = "zswap_one_entry_ref 2"
      and freed_nr = 0 and e = 7 and rest = "[]" and ret = "- ENOMEM"
      and ?g2.0 = "zswap_entry_get 7 (zswap_one_entry_ref 2)" and nr = 0]
    by (simp add: zswap_eval)
  moreover have "zswap_writeback_entries_loop fill_tfm no_writeback (Suc 0) 0 zswap_one_tree
       zswap_one_entry 0 =
     Inr (0, zswap_one_tree, zswap_one_entry)"
    using zswap_writeback_attempt_dispatch [where tfm = fill_tfm and io = no_writeback
      and n = 0 and i = 0 and tree = zswap_one_tree and g = zswap_one_entry
      and freed_nr = 0 and e = 7 and rest = "[]" and ret = "- ENOMEM"
      and ?g2.0 = "zswap_entry_get 7 zswap_one_entry" and nr = 0]
    by (simp add: zswap_eval)
  moreover have "zswap_writeback_entries_loop fill_tfm new_writeback (Suc 0) 0 zswap_one_tree
       zswap_one_entry 0 =
     Inr (1,
          zswap_one_tree\<lparr>rbroot := fmempty, lru := [],
                          pool := zs_free 5 (pool zswap_one_tree)\<rparr>,
          (zswap_one_entry_ref 0)\<lparr>zswap_outstanding_writebacks := 1,
                                   zswap_entry_cache := {}, zswap_stored_pages := 0\<rparr>)"
    using zswap_writeback_attempt_dispatch [where tfm = fill_tfm and io = new_writeback
      and n = 0 and i = 0 and tree = zswap_one_tree and g = zswap_one_entry
      and freed_nr = 0 and e = 7 and rest = "[]" and ret = 0
      and ?g2.0 = "(zswap_entry_get 7 zswap_one_entry)\<lparr>zswap_outstanding_writebacks := 1\<rparr>"
      and nr = 0]
    by (simp add: zswap_eval)
  moreover have "zswap_writeback_entries_loop fill_tfm new_writeback (Suc 0) 0 zswap_one_tree
       (zswap_one_entry_ref 0) 0 =
     Inr (1,
          zswap_one_tree\<lparr>lru := [], pool := zs_free 5 (pool zswap_one_tree)\<rparr>,
          (zswap_one_entry_ref (- 1))\<lparr>zswap_outstanding_writebacks := 1,
                                       zswap_entry_cache := {}, zswap_stored_pages := 0\<rparr>)"
    using zswap_writeback_attempt_dispatch [where tfm = fill_tfm and io = new_writeback
      and n = 0 and i = 0 and tree = zswap_one_tree and g = "zswap_one_entry_ref 0"
      and freed_nr = 0 and e = 7 and rest = "[]" and ret = 0
      and ?g2.0 = "(zswap_entry_get 7 (zswap_one_entry_ref 0))
                     \<lparr>zswap_outstanding_writebacks := 1\<rparr>"
      and nr = 0]
    by (simp add: zswap_eval)
  moreover have "case zswap_writeback_entries fill_tfm new_writeback zswap_one_tree
                   zswap_one_entry 16 of
      Inl f \<Rightarrow> False
    | Inr (freed, tree', g') \<Rightarrow>
        freed = 1 \<and> zswap_stored_pages g' = 0 \<and> zswap_entry_cache g' = {}"
    using zswap_writeback_attempt_dispatch [where tfm = fill_tfm and io = new_writeback
      and n = 0 and i = 0 and tree = zswap_one_tree and g = zswap_one_entry
      and freed_nr = 0 and e = 7 and rest = "[]" and ret = 0
      and ?g2.0 = "(zswap_entry_get 7 zswap_one_entry)\<lparr>zswap_outstanding_writebacks := 1\<rparr>"
      and nr = 16]
    by (simp add: zswap_eval zswap_writeback_entries_loop_numeral)
  moreover have "zswap_writeback_entries fill_tfm no_writeback zswap_one_tree
      zswap_one_entry 16 = Inr (0, zswap_one_tree, zswap_one_entry)"
    using zswap_writeback_attempt_dispatch [where tfm = fill_tfm and io = no_writeback
      and n = 0 and i = 0 and tree = zswap_one_tree and g = zswap_one_entry
      and freed_nr = 0 and e = 7 and rest = "[]" and ret = "- ENOMEM"
      and ?g2.0 = "zswap_entry_get 7 zswap_one_entry" and nr = 16]
    by (simp add: zswap_eval zswap_writeback_entries_loop_numeral)
  ultimately show ?thesis
    by blast
qed

text \<open>
  Claim C5, at an input where the code departs from it. With 64 writebacks
  outstanding the test \<^verbatim>\<open>> ZSWAP_MAX_OUTSTANDING_FLUSHES\<close> lets the loop run:
  the entry at the head of the LRU is decompressed into a new swap cache page,
  the write is submitted, and the counter stands at 65 when
  \<^verbatim>\<open>zswap_writeback_entries\<close> returns.
\<close>

theorem zswap_writeback_exceeds_limit:
  "sint (zswap_outstanding_writebacks (zswap_one_entry\<lparr>zswap_outstanding_writebacks := 64\<rparr>)) =
     ZSWAP_MAX_OUTSTANDING_FLUSHES \<and>
   (case zswap_writeback_entries fill_tfm new_writeback zswap_one_tree
          (zswap_one_entry\<lparr>zswap_outstanding_writebacks := 64\<rparr>) 16 of
      Inl f \<Rightarrow> False
    | Inr (freed_nr, tree, g) \<Rightarrow>
        freed_nr = 1 \<and> sint (zswap_outstanding_writebacks g) = 65)"
  by (simp add: zswap_eval zswap_writeback_entries_loop_numeral)

subsection \<open>Store\<close>

lemma zswap_store_freepage_frame:
  "zswap_tmppage_list (zswap_store_freepage False p e g) = zswap_tmppage_list g"
  "preempt_count (zswap_store_freepage False p e g) = preempt_count g - 1"
  "zswap_tmppage_list (zswap_store_freepage True p e g) = p # zswap_tmppage_list g"
  "preempt_count (zswap_store_freepage True p e g) = preempt_count g"
  "zswap_entry_cache (zswap_store_freepage w p e g) = zswap_entry_cache g - {e}"
  "zswap_trees (zswap_store_freepage w p e g) = zswap_trees g"
  by (simp_all add: zswap_store_freepage_def zswap_entry_cache_free_def zswap_tmppage_free_def
      put_cpu_var_def)

text \<open>
  Claim C8. When \<^verbatim>\<open>zswap_frontswap_store\<close> returns an error, the list of
  scratch pages is as it was before the call, every \<^verbatim>\<open>get_cpu_var\<close> has been
  matched by a \<^verbatim>\<open>put_cpu_var\<close>, no entry record has been added to those
  allocated and the record taken for this store is not among them, and every
  tree holds a part of the index and of the handles it held before: the store
  installed nothing.
\<close>

theorem zswap_frontswap_store_failure_cleanup:
  assumes st: "zswap_frontswap_store tfm env type off page g = Inr (ret, g')"
    and err: "ret \<noteq> 0"
  shows "zswap_tmppage_list g' = zswap_tmppage_list g \<and>
         preempt_count g' = preempt_count g \<and>
         zswap_entry_cache g' \<subseteq> zswap_entry_cache g \<and>
         (\<forall>e. zswap_trees g type \<noteq> None \<and> kmem_cache_alloc env = Some e \<longrightarrow>
              e \<notin> zswap_entry_cache g') \<and>
         (\<forall>ty. rel_option (\<lambda>tree' tree. rbroot tree' \<subseteq>\<^sub>f rbroot tree \<and>
                    allocated (pool tree') \<subseteq> allocated (pool tree))
                 (zswap_trees g' ty) (zswap_trees g ty))"
proof (cases "zswap_trees g type")
  case None
  with st show ?thesis
    by (auto simp: zswap_frontswap_store_def option.rel_refl_strong fmsubset_self)
next
  case (Some tree)
  note tree = this
  show ?thesis
  proof (cases "kmem_cache_alloc env")
    case None
    with st tree show ?thesis
      by (auto simp: zswap_frontswap_store_def zswap_entry_cache_alloc_def
          option.rel_refl_strong fmsubset_self)
  next
    case (Some e)
    note kmem = this
    let ?g0 = "g\<lparr>entries := (entries g)(e := (entries g e)\<lparr>refcount := 1\<rparr>),
                 zswap_entry_cache := insert e (zswap_entry_cache g)\<rparr>"
    obtain cret out where comp: "crypto_comp_compress tfm (take PAGE_SIZE page) = (cret, out)"
      by (cases "crypto_comp_compress tfm (take PAGE_SIZE page)") auto
    let ?dst = "overwrite out (zswap_dstmem g)"
    let ?dlen = "of_nat (length out) :: 32 word"
    let ?g1 = "(get_cpu_var ?g0)\<lparr>zswap_dstmem := ?dst\<rparr>"
    show ?thesis
    proof (cases "cret \<noteq> 0 \<or>
        unat (zswap_max_compression_ratio g) < unat (?dlen * 100) div PAGE_SIZE")
      case True
      with st tree kmem comp show ?thesis
        by (auto simp: zswap_frontswap_store_def zswap_entry_cache_alloc_def zswap_comp_op_def
            get_cpu_var_def Let_def zswap_store_freepage_frame option.rel_refl_strong
            fmsubset_self split: if_splits)
    next
      case False
      note admitted = this
      from st err tree kmem comp admitted have first: "zs_malloc_first env = 0"
        by (auto simp: zswap_frontswap_store_def zswap_entry_cache_alloc_def zswap_comp_op_def
            get_cpu_var_def Let_def split: if_splits)
      show ?thesis
      proof (cases "zswap_tmppage_list g")
        case Nil
        with st tree kmem comp admitted first show ?thesis
          by (auto simp: zswap_frontswap_store_def zswap_entry_cache_alloc_def zswap_comp_op_def
              get_cpu_var_def Let_def zswap_tmppage_alloc_def zswap_store_freepage_frame
              option.rel_refl_strong fmsubset_self split: if_splits)
      next
        case (Cons tmppage rest)
        let ?g2 = "?g1\<lparr>zswap_writeback_attempted := zswap_writeback_attempted ?g1 + 1,
                       zswap_tmppage_list := rest\<rparr>"
        from st err tree kmem comp admitted first Cons obtain freed_nr tree1 g3 where
          wb: "zswap_writeback_entries_loop tfm (writeback_io env) 16 0 tree (put_cpu_var ?g2) 0 =
                 Inr (freed_nr, tree1, g3)"
          and g': "g' = zswap_store_freepage True tmppage e
                     (g3\<lparr>zswap_reject_zsmalloc_fail := zswap_reject_zsmalloc_fail g3 + 1,
                         zswap_trees := (zswap_trees g3)(type \<mapsto> tree1)\<rparr>)"
          by (auto simp: zswap_frontswap_store_def zswap_entry_cache_alloc_def zswap_comp_op_def
              get_cpu_var_def Let_def zswap_tmppage_alloc_def zswap_writeback_entries_def
              split: if_splits sum.splits)
        note fr = zswap_writeback_entries_loop_frame [OF wb]
        from fr g' tree Cons kmem show ?thesis
          by (auto simp: zswap_store_freepage_frame put_cpu_var_def get_cpu_var_def
              option.rel_refl_strong fmsubset_self)
      qed
    qed
  qed
qed

theorem zswap_frontswap_store_failure_cleanup_witness:
  "\<exists>g'. zswap_frontswap_store fill_tfm (pressure_env 8 0) 0 48 (replicate PAGE_SIZE 66)
           zswap_one_entry = Inr (- ENOMEM, g') \<and>
         zswap_tmppage_list g' = zswap_tmppage_list zswap_one_entry \<and>
         preempt_count g' = preempt_count zswap_one_entry \<and>
         8 \<notin> zswap_entry_cache g' \<and>
         rel_option (\<lambda>tree' tree. rbroot tree' \<subseteq>\<^sub>f rbroot tree \<and>
                    allocated (pool tree') \<subseteq> allocated (pool tree))
           (zswap_trees g' 0) (zswap_trees zswap_one_entry 0)"
proof -
  obtain g' where st: "zswap_frontswap_store fill_tfm (pressure_env 8 0) 0 48
      (replicate PAGE_SIZE 66) zswap_one_entry = Inr (- ENOMEM, g')"
    by (simp add: zswap_eval zswap_writeback_entries_loop_numeral upt_conv_Cons)
  have err: "- ENOMEM \<noteq> 0"
    by (simp add: ENOMEM_def)
  have "zswap_trees zswap_one_entry 0 \<noteq> None \<and> kmem_cache_alloc (pressure_env 8 0) = Some 8"
    by (simp add: zswap_one_entry_def pressure_env_def)
  with zswap_frontswap_store_failure_cleanup [OF st err] st show ?thesis
    by blast
qed

lemma unat_dlen:
  assumes "n \<le> 2 * PAGE_SIZE"
  shows "unat (of_nat n :: 32 word) = n"
    and "unat (of_nat n * 100 :: 32 word) = n * 100"
proof -
  have n: "n \<le> 8192"
    using assms by (simp add: PAGE_SIZE_def)
  then show a: "unat (of_nat n :: 32 word) = n"
    by (simp add: unat_of_nat take_bit_nat_eq_self)
  have "unat (of_nat n :: 32 word) * unat (100 :: 32 word) < 2 ^ LENGTH(32)"
    using n a by simp
  then have "unat (of_nat n * 100 :: 32 word) = unat (of_nat n :: 32 word) * unat (100 :: 32 word)"
    by (simp only: unat_mult_lem)
  then show "unat (of_nat n * 100 :: 32 word) = n * 100"
    using a by simp
qed

text \<open>A store that returns 0 went through \<open>zswap_store_map\<close> with the compressed bytes.\<close>

lemma zswap_frontswap_store_ok:
  assumes st: "zswap_frontswap_store tfm env type off page g = Inr (0, g')"
  obtains tree e out h dst wa tmppage tree1 g0 where
    "zswap_trees g type = Some tree"
    "kmem_cache_alloc env = Some e"
    "crypto_comp_compress tfm (take PAGE_SIZE page) = (0, out)"
    "\<not> unat (zswap_max_compression_ratio g) < unat (of_nat (length out) * 100 :: 32 word) div PAGE_SIZE"
    "g' = zswap_store_map type off e h dst (of_nat (length out)) wa tmppage tree1 g0"
    "take (unat (of_nat (length out) :: 32 word)) dst =
       take (unat (of_nat (length out) :: 32 word)) (overwrite out (zswap_dstmem g))"
proof -
  from st obtain tree where tree: "zswap_trees g type = Some tree"
    by (auto simp: zswap_frontswap_store_def ENODEV_def split: option.splits)
  from st tree obtain e where kmem: "kmem_cache_alloc env = Some e"
    by (auto simp: zswap_frontswap_store_def zswap_entry_cache_alloc_def ENOMEM_def
        split: option.splits)
  obtain cret out where comp: "crypto_comp_compress tfm (take PAGE_SIZE page) = (cret, out)"
    by (cases "crypto_comp_compress tfm (take PAGE_SIZE page)") auto
  let ?dlen = "of_nat (length out) :: 32 word"
  from st tree kmem comp have cret: "cret = 0"
    and ratio: "\<not> unat (zswap_max_compression_ratio g) < unat (?dlen * 100) div PAGE_SIZE"
    by (auto simp: zswap_frontswap_store_def zswap_entry_cache_alloc_def zswap_comp_op_def
        get_cpu_var_def Let_def EINVAL_def E2BIG_def split: if_splits)
  show thesis
  proof (cases "zs_malloc_first env \<noteq> 0")
    case True
    with st tree kmem comp cret ratio have
      "g' = zswap_store_map type off e (zs_malloc_first env) (overwrite out (zswap_dstmem g))
              ?dlen False 0 (tree\<lparr>pool := zs_malloc (zs_malloc_first env) (pool tree)\<rparr>)
              ((get_cpu_var (g\<lparr>entries := (entries g)(e := (entries g e)\<lparr>refcount := 1\<rparr>),
                   zswap_entry_cache := insert e (zswap_entry_cache g)\<rparr>))
                 \<lparr>zswap_dstmem := overwrite out (zswap_dstmem g)\<rparr>)"
      by (auto simp: zswap_frontswap_store_def zswap_entry_cache_alloc_def zswap_comp_op_def
          get_cpu_var_def Let_def)
    with tree kmem comp cret ratio show thesis
      by (intro that [where dst = "overwrite out (zswap_dstmem g)" and wa = False
            and h = "zs_malloc_first env" and tmppage = 0]) auto
  next
    case False
    with st tree kmem comp cret ratio obtain tmppage tree1 g0 where
      "g' = zswap_store_map type off e (zs_malloc_second env)
              (take (unat ?dlen) (overwrite out (zswap_dstmem g)))
              ?dlen True tmppage tree1 g0"
      by (auto simp: zswap_frontswap_store_def zswap_entry_cache_alloc_def zswap_comp_op_def
          get_cpu_var_def Let_def ENOMEM_def zswap_tmppage_alloc_def
          split: list.splits sum.splits if_splits)
    with tree kmem comp cret ratio show thesis
      by (intro that [where dst = "take (unat ?dlen) (overwrite out (zswap_dstmem g))"
            and wa = True and tmppage = tmppage and ?tree1.0 = tree1 and ?g0.0 = g0
            and h = "zs_malloc_second env"]) auto
  qed
qed

text \<open>
  Claim C2. Take a store on a registered area whose entry record was allocated
  and whose compression succeeded with \<open>length out\<close> bytes, fitting the per-CPU
  buffer of \<^verbatim>\<open>PAGE_SIZE * 2\<close> bytes. The store returns \<^verbatim>\<open>-E2BIG\<close> with
  \<open>zswap_reject_compress_poor\<close> incremented if and only if
  \<open>length out * 100 div PAGE_SIZE\<close> exceeds \<open>zswap_max_compression_ratio\<close>. And
  when the store returns 0, the index holds at the offset an entry of that
  length, for which \<open>length out * 100 div PAGE_SIZE\<close> is at most the ratio.
\<close>

theorem zswap_store_admission_ratio:
  assumes tree: "zswap_trees g type = Some tree"
    and kmem: "kmem_cache_alloc env = Some e"
    and comp: "crypto_comp_compress tfm (take PAGE_SIZE page) = (0, out)"
    and fit: "length out \<le> 2 * PAGE_SIZE"
  shows "((case zswap_frontswap_store tfm env type off page g of
            Inl f \<Rightarrow> False
          | Inr (ret, g') \<Rightarrow>
              ret = - E2BIG \<and>
              zswap_reject_compress_poor g' = zswap_reject_compress_poor g + 1) \<longleftrightarrow>
          unat (zswap_max_compression_ratio g) < length out * 100 div PAGE_SIZE) \<and>
         (\<forall>g'. zswap_frontswap_store tfm env type off page g = Inr (0, g') \<longrightarrow>
            (\<exists>tree'. zswap_trees g' type = Some tree' \<and>
               fmlookup (rbroot tree') off = Some e \<and>
               unat (entry_length (entries g' e)) = length out \<and>
               length out * 100 div PAGE_SIZE \<le> unat (zswap_max_compression_ratio g)))"
proof (intro conjI allI impI)
  note len = unat_dlen [OF fit]
  show "(case zswap_frontswap_store tfm env type off page g of
            Inl f \<Rightarrow> False
          | Inr (ret, g') \<Rightarrow>
              ret = - E2BIG \<and>
              zswap_reject_compress_poor g' = zswap_reject_compress_poor g + 1) \<longleftrightarrow>
          unat (zswap_max_compression_ratio g) < length out * 100 div PAGE_SIZE"
    using tree kmem comp len
    by (auto simp: zswap_frontswap_store_def zswap_entry_cache_alloc_def zswap_comp_op_def
        get_cpu_var_def Let_def ENOMEM_def E2BIG_def zswap_store_freepage_def
        zswap_entry_cache_free_def put_cpu_var_def
        split: prod.splits option.splits sum.splits)
next
  fix g'
  assume st: "zswap_frontswap_store tfm env type off page g = Inr (0, g')"
  note len = unat_dlen [OF fit]
  from st obtain tree0 e0 out0 h buf wa tmppage tree1 g0 where
    "zswap_trees g type = Some tree0"
    and kmem0: "kmem_cache_alloc env = Some e0"
    and comp0: "crypto_comp_compress tfm (take PAGE_SIZE page) = (0, out0)"
    and ratio: "\<not> unat (zswap_max_compression_ratio g)
          < unat (of_nat (length out0) * 100 :: 32 word) div PAGE_SIZE"
    and g': "g' = zswap_store_map type off e0 h buf (of_nat (length out0)) wa tmppage tree1 g0"
    by (rule zswap_frontswap_store_ok)
  from kmem kmem0 comp comp0 have eq: "e0 = e" "out0 = out"
    by simp_all
  from zswap_store_map_installed [OF g'] eq ratio len
  show "\<exists>tree'. zswap_trees g' type = Some tree' \<and>
               fmlookup (rbroot tree') off = Some e \<and>
               unat (entry_length (entries g' e)) = length out \<and>
               length out * 100 div PAGE_SIZE \<le> unat (zswap_max_compression_ratio g)"
    by (auto simp: not_less)
qed

lemma zswap_one_entry_stored:
  "zswap_frontswap_store fill_tfm (plain_env 7 5) 0 48 (replicate PAGE_SIZE 65) zswap_area0 =
     Inr (0, zswap_one_entry)"
  by (simp add: zswap_eval zswap_store_insert_new)

theorem zswap_store_admission_ratio_witness:
  "(case zswap_frontswap_store copy_tfm (plain_env 7 5) 0 48 (replicate PAGE_SIZE 65)
           zswap_area0 of
      Inl f \<Rightarrow> False
    | Inr (ret, g') \<Rightarrow> ret = - E2BIG \<and> zswap_reject_compress_poor g' = 1) \<and>
   unat (zswap_max_compression_ratio zswap_area0) < PAGE_SIZE * 100 div PAGE_SIZE \<and>
   zswap_frontswap_store fill_tfm (plain_env 7 5) 0 48 (replicate PAGE_SIZE 65) zswap_area0 =
     Inr (0, zswap_one_entry) \<and>
   (\<exists>tree'. zswap_trees zswap_one_entry 0 = Some tree' \<and>
      fmlookup (rbroot tree') 48 = Some 7 \<and>
      unat (entry_length (entries zswap_one_entry 7)) = 1 \<and>
      1 * 100 div PAGE_SIZE \<le> unat (zswap_max_compression_ratio zswap_area0))"
proof -
  have area: "zswap_trees zswap_area0 0 =
      Some \<lparr>rbroot = fmempty, lru = [], pool = \<lparr>objs = (\<lambda>h. []), allocated = {}\<rparr>,
            swap_type = 0\<rparr>"
    by (simp add: zswap_area0_def zswap_frontswap_init_def)
  have kmem: "kmem_cache_alloc (plain_env 7 5) = Some 7"
    by (simp add: plain_env_def)
  have copy: "crypto_comp_compress copy_tfm (take PAGE_SIZE (replicate PAGE_SIZE 65)) =
      (0, replicate PAGE_SIZE 65)"
    by (simp add: copy_tfm_def fill_tfm_def)
  have fill: "crypto_comp_compress fill_tfm (take PAGE_SIZE (replicate PAGE_SIZE 65)) = (0, [65])"
    by (simp add: fill_tfm_def PAGE_SIZE_def)
  have ratio: "zswap_max_compression_ratio zswap_area0 = 80"
    "zswap_reject_compress_poor zswap_area0 = 0"
    by (simp_all add: zswap_area0_def zswap_frontswap_init_def zswap_boot_def)
  have poor: "unat (zswap_max_compression_ratio zswap_area0) < PAGE_SIZE * 100 div PAGE_SIZE"
    by (simp add: ratio PAGE_SIZE_def)
  from zswap_store_admission_ratio [OF area kmem copy, of 48] poor ratio
  have "case zswap_frontswap_store copy_tfm (plain_env 7 5) 0 48 (replicate PAGE_SIZE 65)
           zswap_area0 of
      Inl f \<Rightarrow> False
    | Inr (ret, g') \<Rightarrow> ret = - E2BIG \<and> zswap_reject_compress_poor g' = 1"
    by (auto split: sum.splits)
  moreover from zswap_store_admission_ratio [OF area kmem fill, of 48] zswap_one_entry_stored
  have "\<exists>tree'. zswap_trees zswap_one_entry 0 = Some tree' \<and>
      fmlookup (rbroot tree') 48 = Some 7 \<and>
      unat (entry_length (entries zswap_one_entry 7)) = 1 \<and>
      1 * 100 div PAGE_SIZE \<le> unat (zswap_max_compression_ratio zswap_area0)"
    by (simp add: PAGE_SIZE_def)
  ultimately show ?thesis
    using poor zswap_one_entry_stored by blast
qed

text \<open>
  After a store that returned 0 the index holds an entry at the offset whose
  object is the compressed page.
\<close>

lemma zswap_frontswap_store_ok_payload:
  assumes st: "zswap_frontswap_store tfm env type off page g = Inr (0, g1)"
    and fit: "length (snd (crypto_comp_compress tfm (take PAGE_SIZE page))) \<le> 2 * PAGE_SIZE"
  shows "\<exists>tree' e. zswap_trees g1 type = Some tree' \<and>
           fmlookup (rbroot tree') off = Some e \<and>
           take (unat (entry_length (entries g1 e))) (objs (pool tree') (handle (entries g1 e))) =
             snd (crypto_comp_compress tfm (take PAGE_SIZE page))"
proof -
  from st obtain tree e out h buf wa tmppage tree1 g0 where
    "zswap_trees g type = Some tree"
    and comp: "crypto_comp_compress tfm (take PAGE_SIZE page) = (0, out)"
    and g1: "g1 = zswap_store_map type off e h buf (of_nat (length out)) wa tmppage tree1 g0"
    and buf: "take (unat (of_nat (length out) :: 32 word)) buf =
       take (unat (of_nat (length out) :: 32 word)) (overwrite out (zswap_dstmem g))"
    by (rule zswap_frontswap_store_ok)
  from comp fit have len: "unat (of_nat (length out) :: 32 word) = length out"
    by (simp add: unat_dlen)
  from zswap_store_map_installed [OF g1] obtain tree' where
    tree': "zswap_trees g1 type = Some tree'"
    and look: "fmlookup (rbroot tree') off = Some e"
    and obj: "objs (pool tree') h = take (unat (of_nat (length out) :: 32 word)) buf"
    and ent: "handle (entries g1 e) = h" "entry_length (entries g1 e) = of_nat (length out)"
    by blast
  have "take (unat (entry_length (entries g1 e))) (objs (pool tree') (handle (entries g1 e))) = out"
    using obj ent buf len by (simp add: overwrite_def)
  with tree' look comp show ?thesis
    by auto
qed



subsection \<open>A store at an offset that holds an entry\<close>

text \<open>
  \<^verbatim>\<open>zswap_frontswap_store\<close> is its part up to line 856 followed by the
  insertion.
\<close>

lemma zswap_frontswap_store_prepare:
  "zswap_frontswap_store tfm env type off page g =
     (case zswap_store_prepare tfm env type page g of
        Store_fault f \<Rightarrow> Inl f
      | Store_reject ret g' \<Rightarrow> Inr (ret, g')
      | Store_insert e h dst dlen wa tmppage tree1 g1 \<Rightarrow>
          Inr (0, zswap_store_map type off e h dst dlen wa tmppage tree1 g1))"
  by (simp add: zswap_frontswap_store_def zswap_store_prepare_def Let_def
      split: option.splits prod.splits sum.splits)

text \<open>
  What the state before the insertion has kept of the state at the call: the
  counter of duplicates; and the keys of an entry \<open>d\<close> in the index, unless
  the writeback has freed \<open>d\<close>, which is then in the index and on the LRU
  nowhere. Without a writeback the index and the entries other than the new one
  are as they were.
\<close>

lemma zswap_store_prepare_insert:
  assumes prep: "zswap_store_prepare tfm env type page g =
                   Store_insert e h buf dlen wa tmppage tree1 g1"
    and tree: "zswap_trees g type = Some tree"
  shows "zswap_duplicate_entry g1 = zswap_duplicate_entry g \<and>
         ((\<forall>k. (fmlookup (rbroot tree1) k = Some d) = (fmlookup (rbroot tree) k = Some d)) \<or>
          (wa \<and> (\<forall>k. fmlookup (rbroot tree1) k \<noteq> Some d) \<and> d \<notin> set (lru tree1) \<and>
           d \<notin> zswap_entry_cache g1)) \<and>
         (\<not> wa \<and> e \<noteq> d \<longrightarrow> entries g1 d = entries g d)"
proof -
  obtain e0 g0 where alloc: "zswap_entry_cache_alloc (kmem_cache_alloc env) g = (Some e0, g0)"
    using prep tree
    by (cases "zswap_entry_cache_alloc (kmem_cache_alloc env) g")
      (auto simp: zswap_store_prepare_def split: option.splits)
  obtain ret dst dlen0 where comp: "zswap_comp_op tfm ZSWAP_COMPOP_COMPRESS page PAGE_SIZE
      (zswap_dstmem (get_cpu_var g0)) = (ret, dst, dlen0)"
    by (cases "zswap_comp_op tfm ZSWAP_COMPOP_COMPRESS page PAGE_SIZE
      (zswap_dstmem (get_cpu_var g0))") auto
  let ?g1 = "(get_cpu_var g0)\<lparr>zswap_dstmem := dst\<rparr>"
  have g0: "zswap_duplicate_entry g0 = zswap_duplicate_entry g"
    "e0 \<noteq> d \<Longrightarrow> entries g0 d = entries g d"
    using alloc by (auto simp: zswap_entry_cache_alloc_def split: option.splits)
  show ?thesis
  proof (cases "zs_malloc_first env \<noteq> 0")
    case True
    with prep tree alloc comp have
      res: "e = e0" "wa = False" "tree1 = tree\<lparr>pool := zs_malloc (zs_malloc_first env) (pool tree)\<rparr>"
        "g1 = ?g1"
      by (auto simp: zswap_store_prepare_def Let_def split: if_splits)
    show ?thesis
      using g0 by (simp add: res get_cpu_var_def)
  next
    case False
    let ?g1a = "?g1\<lparr>zswap_writeback_attempted := zswap_writeback_attempted ?g1 + 1\<rparr>"
    from prep tree alloc comp False obtain tmp g2 where
      tmp: "zswap_tmppage_alloc ?g1a = (Some tmp, g2)"
      by (cases "zswap_tmppage_alloc ?g1a")
        (auto simp: zswap_store_prepare_def Let_def split: if_splits option.splits)
    from prep tree alloc comp False tmp obtain freed tree2 g3 where
      run: "zswap_writeback_entries_loop tfm (writeback_io env) 16 0 tree (put_cpu_var g2) 0 =
              Inr (freed, tree2, g3)"
      and res: "wa = True"
        "tree1 = tree2\<lparr>pool := zs_malloc (zs_malloc_second env) (pool tree2)\<rparr>"
        "g1 = g3\<lparr>zswap_saved_by_writeback := zswap_saved_by_writeback g3 + 1\<rparr>"
      by (auto simp: zswap_store_prepare_def zswap_writeback_entries_def Let_def
          split: if_splits sum.splits)
    have g2: "zswap_duplicate_entry (put_cpu_var g2) = zswap_duplicate_entry g"
      using tmp g0 by (auto simp: zswap_tmppage_alloc_def put_cpu_var_def get_cpu_var_def
          split: list.splits)
    show ?thesis
      using zswap_writeback_entries_loop_count [OF run] g2
        zswap_writeback_entries_loop_erased [OF run, of d]
      by (simp add: res)
  qed
qed

text \<open>
  Claim C3, as amended. Take a store at an offset whose index entry is \<open>d\<close>,
  and let the store be admitted: it reaches the insertion (line 858) with an
  entry record \<open>e\<close> other than \<open>d\<close> and a handle, got at the first
  \<^verbatim>\<open>zs_malloc\<close> or after the writeback fallback. Let the decompressor give
  back the page from its compressed bytes, which fit the per-CPU buffer. Then
  the store returns 0; the index maps the offset to the new entry and no offset
  to \<open>d\<close>; \<open>d\<close> is not on the LRU; and a load at the offset returns 0 with
  the newly stored page. If \<open>d\<close> is still in the index at the offset when the
  new entry is inserted, which is always so when no writeback ran, then the
  refcount of \<open>d\<close> is one less than it was at the insertion, the record of
  \<open>d\<close> and its handle are no longer allocated when that leaves 0, and
  \<open>zswap_duplicate_entry\<close> is one more. Otherwise the writeback fallback has
  written \<open>d\<close> out and freed it: its record is not allocated and
  \<open>zswap_duplicate_entry\<close> is unchanged.
\<close>

theorem zswap_store_replaces_duplicate:
  assumes tree: "zswap_trees g type = Some tree"
    and dup: "fmlookup (rbroot tree) off = Some d"
    and prep: "zswap_store_prepare tfm env type page g =
                 Store_insert e h buf dlen wa tmppage tree1 g1"
    and fresh: "e \<noteq> d"
    and inverse: "snd (crypto_comp_decompress tfm (snd (crypto_comp_compress tfm page))) = page"
    and fit: "length (snd (crypto_comp_compress tfm page)) \<le> 2 * PAGE_SIZE"
    and page: "length page = PAGE_SIZE"
    and dst: "length dst = PAGE_SIZE"
  shows "\<exists>g' tree'. zswap_frontswap_store tfm env type off page g = Inr (0, g') \<and>
           zswap_trees g' type = Some tree' \<and>
           fmlookup (rbroot tree') off = Some e \<and>
           (\<forall>k. fmlookup (rbroot tree') k \<noteq> Some d) \<and>
           d \<notin> set (lru tree') \<and>
           (\<exists>g2. zswap_frontswap_load tfm type off dst g' = Inr (0, page, g2)) \<and>
           (fmlookup (rbroot tree1) off = Some d \<longrightarrow>
              refcount (entries g' d) = refcount (entries g1 d) - 1 \<and>
              (refcount (entries g' d) = 0 \<longrightarrow>
                 d \<notin> zswap_entry_cache g' \<and>
                 handle (entries g1 d) \<notin> allocated (pool tree')) \<and>
              zswap_duplicate_entry g' = zswap_duplicate_entry g + 1) \<and>
           (fmlookup (rbroot tree1) off \<noteq> Some d \<longrightarrow>
              wa \<and> d \<notin> zswap_entry_cache g' \<and>
              zswap_duplicate_entry g' = zswap_duplicate_entry g) \<and>
           (\<not> wa \<longrightarrow> fmlookup (rbroot tree1) off = Some d \<and> entries g1 d = entries g d)"
proof -
  define g' where "g' = zswap_store_map type off e h buf dlen wa tmppage tree1 g1"
  have st: "zswap_frontswap_store tfm env type off page g = Inr (0, g')"
    by (simp add: zswap_frontswap_store_prepare prep g'_def)
  note kept = zswap_store_prepare_insert [OF prep tree]
  let ?tree1 = "tree1\<lparr>pool := zs_store h (take (unat dlen) buf) (pool tree1)\<rparr>"
  let ?g1 = "if wa then zswap_tmppage_free tmppage g1 else put_cpu_var g1"
  let ?g2 = "?g1\<lparr>entries := (entries ?g1)
       (e := (entries ?g1 e)\<lparr>offset := off, handle := h, entry_length := dlen\<rparr>)\<rparr>"
  have off: "offset (entries ?g2 e) = off"
    by simp
  have d_old: "entries ?g2 d = entries g1 d"
    using fresh by (simp add: put_cpu_var_def zswap_tmppage_free_def)
  have g2: "zswap_duplicate_entry ?g2 = zswap_duplicate_entry g"
    "zswap_entry_cache ?g2 = zswap_entry_cache g1"
    using kept [of d] by (simp_all add: put_cpu_var_def zswap_tmppage_free_def)
  have load: "\<exists>g2. zswap_frontswap_load tfm type off dst g' = Inr (0, page, g2)"
  proof -
    from page have whole: "take PAGE_SIZE page = page"
      by simp
    from zswap_frontswap_store_ok_payload [OF st] fit whole obtain tree2 e2 where
      tree2: "zswap_trees g' type = Some tree2"
      and look: "fmlookup (rbroot tree2) off = Some e2"
      and obj: "take (unat (entry_length (entries g' e2)))
                  (objs (pool tree2) (handle (entries g' e2))) =
                snd (crypto_comp_compress tfm page)"
      by auto
    from zswap_frontswap_load_hit [OF tree2 look, of tfm dst] obtain g2 where
      "zswap_frontswap_load tfm type off dst g' =
         Inr (0, overwrite (snd (crypto_comp_decompress tfm
                   (snd (crypto_comp_compress tfm page)))) dst, g2)"
      by (auto simp: obj)
    moreover have "overwrite page dst = page"
      using page dst by (simp add: overwrite_def)
    ultimately show ?thesis
      using inverse by auto
  qed
  have fast: "\<not> wa \<longrightarrow> fmlookup (rbroot tree1) off = Some d \<and> entries g1 d = entries g d"
    using kept [of d] dup fresh by auto
  show ?thesis
  proof (cases "fmlookup (rbroot tree1) off = Some d")
    case True
    obtain tree3 g4 where un: "zswap_store_unlink_dup ?tree1 d ?g2 = (tree3, g4)"
      by (cases "zswap_store_unlink_dup ?tree1 d ?g2") auto
    have "fmlookup (rbroot ?tree1) (offset (entries ?g2 e)) = Some d"
      using True by (simp only: off) simp
    from zswap_store_insert_dup [OF this un]
    have ins: "zswap_store_insert ?tree1 e ?g2 =
        (tree3\<lparr>rbroot := fmupd off e (rbroot tree3)\<rparr>, g4)"
      by (simp only: off)
    let ?tree' = "tree3\<lparr>rbroot := fmupd off e (rbroot tree3), lru := lru tree3 @ [e]\<rparr>"
    have g'_eq: "g' = g4\<lparr>zswap_stored_pages := zswap_stored_pages g4 + 1,
         zswap_trees := (zswap_trees g4)(type \<mapsto> ?tree')\<rparr>"
      using ins by (simp add: g'_def zswap_store_map_def Let_def)
    note p = zswap_store_unlink_dup_props [OF un]
    have t': "zswap_trees g' type = Some ?tree'"
      by (simp add: g'_eq)
    have "fmlookup (rbroot ?tree') off = Some e"
      by simp
    moreover have "\<forall>k. fmlookup (rbroot ?tree') k \<noteq> Some d"
      using fresh by (simp add: p(1) rb_erase_lookup)
    moreover have "d \<notin> set (lru ?tree')"
      using fresh by (simp add: p(2) list_del_init_def)
    moreover have rc: "refcount (entries g' d) = refcount (entries g1 d) - 1"
      using d_old by (simp add: g'_eq p(4))
    moreover have "refcount (entries g' d) = 0 \<longrightarrow>
        d \<notin> zswap_entry_cache g' \<and> handle (entries g1 d) \<notin> allocated (pool ?tree')"
    proof
      assume "refcount (entries g' d) = 0"
      with rc d_old have "refcount (entries ?g2 d) = 1"
        by simp
      from p(6) [OF this] d_old show
        "d \<notin> zswap_entry_cache g' \<and> handle (entries g1 d) \<notin> allocated (pool ?tree')"
        by (auto simp: g'_eq)
    qed
    moreover have "zswap_duplicate_entry g' = zswap_duplicate_entry g + 1"
      using g2 by (simp add: g'_eq p(5))
    ultimately show ?thesis
      using st t' load fast True by blast
  next
    case False
    with kept [of d] dup have gone: "wa" "\<forall>k. fmlookup (rbroot tree1) k \<noteq> Some d"
      "d \<notin> set (lru tree1)" "d \<notin> zswap_entry_cache g1"
      by auto
    have none: "fmlookup (rbroot tree1) off = None"
    proof (cases "fmlookup (rbroot tree1) off")
      case None
      then show ?thesis .
    next
      case (Some d2)
      with kept [of d2] dup False show ?thesis
        by auto
    qed
    then have "fmlookup (rbroot ?tree1) (offset (entries ?g2 e)) = None"
      by (simp only: off) simp
    then have "zswap_store_insert ?tree1 e ?g2 =
        (?tree1\<lparr>rbroot := fmupd (offset (entries ?g2 e)) e (rbroot ?tree1)\<rparr>, ?g2)"
      by (rule zswap_store_insert_new)
    then have ins: "zswap_store_insert ?tree1 e ?g2 =
        (?tree1\<lparr>rbroot := fmupd off e (rbroot ?tree1)\<rparr>, ?g2)"
      by (simp only: off)
    let ?tree' = "?tree1\<lparr>rbroot := fmupd off e (rbroot ?tree1), lru := lru ?tree1 @ [e]\<rparr>"
    have g'_eq: "g' = ?g2\<lparr>zswap_stored_pages := zswap_stored_pages ?g2 + 1,
         zswap_trees := (zswap_trees ?g2)(type \<mapsto> ?tree')\<rparr>"
      using ins by (simp add: g'_def zswap_store_map_def Let_def)
    have t': "zswap_trees g' type = Some ?tree'"
      by (simp add: g'_eq)
    have "fmlookup (rbroot ?tree') off = Some e"
      by simp
    moreover have "\<forall>k. fmlookup (rbroot ?tree') k \<noteq> Some d"
      using fresh gone by simp
    moreover have "d \<notin> set (lru ?tree')"
      using fresh gone by simp
    moreover have "d \<notin> zswap_entry_cache g'"
      using gone g2 by (simp add: g'_eq)
    moreover have "zswap_duplicate_entry g' = zswap_duplicate_entry g"
      using g2 by (simp add: g'_eq)
    ultimately show ?thesis
      using st t' load fast False gone(1) by blast
  qed
qed

theorem zswap_store_replaces_duplicate_witness:
  "(\<exists>g' tree'. zswap_frontswap_store fill_tfm (plain_env 8 6) 0 48 (replicate PAGE_SIZE 66)
                  zswap_one_entry = Inr (0, g') \<and>
      zswap_trees g' 0 = Some tree' \<and>
      fmlookup (rbroot tree') 48 = Some 8 \<and>
      7 \<notin> set (lru tree') \<and>
      refcount (entries g' 7) = 0 \<and>
      7 \<notin> zswap_entry_cache g' \<and> 5 \<notin> allocated (pool tree') \<and>
      zswap_duplicate_entry g' = 1 \<and>
      (\<exists>g2. zswap_frontswap_load fill_tfm 0 48 (replicate PAGE_SIZE 0) g' =
         Inr (0, replicate PAGE_SIZE 66, g2))) \<and>
   (\<exists>g' tree'. zswap_frontswap_store fill_tfm (busy_env 8 6) 0 48 (replicate PAGE_SIZE 66)
                  zswap_one_entry = Inr (0, g') \<and>
      zswap_trees g' 0 = Some tree' \<and>
      fmlookup (rbroot tree') 48 = Some 8 \<and>
      7 \<notin> set (lru tree') \<and>
      refcount (entries g' 7) = 0 \<and>
      7 \<notin> zswap_entry_cache g' \<and> 5 \<notin> allocated (pool tree') \<and>
      zswap_duplicate_entry g' = 1 \<and>
      (\<exists>g2. zswap_frontswap_load fill_tfm 0 48 (replicate PAGE_SIZE 0) g' =
         Inr (0, replicate PAGE_SIZE 66, g2))) \<and>
   (\<exists>g' tree'. zswap_frontswap_store fill_tfm (pressure_env 8 6) 0 48 (replicate PAGE_SIZE 66)
                  zswap_one_entry = Inr (0, g') \<and>
      zswap_trees g' 0 = Some tree' \<and>
      fmlookup (rbroot tree') 48 = Some 8 \<and>
      7 \<notin> set (lru tree') \<and>
      7 \<notin> zswap_entry_cache g' \<and>
      zswap_duplicate_entry g' = 0 \<and>
      (\<exists>g2. zswap_frontswap_load fill_tfm 0 48 (replicate PAGE_SIZE 0) g' =
         Inr (0, replicate PAGE_SIZE 66, g2)))"
proof -
  have tree: "zswap_trees zswap_one_entry 0 = Some zswap_one_tree"
    by (simp add: zswap_one_entry_def)
  have dup: "fmlookup (rbroot zswap_one_tree) 48 = Some 7"
    by (simp add: zswap_one_tree_def)
  have fresh: "(8::nat) \<noteq> 7"
    by simp
  have inverse: "snd (crypto_comp_decompress fill_tfm
      (snd (crypto_comp_compress fill_tfm (replicate PAGE_SIZE 66)))) = replicate PAGE_SIZE 66"
    by (simp add: fill_tfm_def PAGE_SIZE_def)
  have fit: "length (snd (crypto_comp_compress fill_tfm (replicate PAGE_SIZE 66))) \<le> 2 * PAGE_SIZE"
    by (simp add: fill_tfm_def PAGE_SIZE_def)
  have page: "length (replicate PAGE_SIZE (66 :: 8 word)) = PAGE_SIZE"
    and dst: "length (replicate PAGE_SIZE (0 :: 8 word)) = PAGE_SIZE"
    by simp_all
  have old: "zswap_duplicate_entry zswap_one_entry = 0"
    by (simp add: zswap_one_entry_def zswap_boot_def)
  have "\<exists>buf tree1 g1.
      zswap_store_prepare fill_tfm (plain_env 8 6) 0 (replicate PAGE_SIZE 66) zswap_one_entry =
        Store_insert 8 6 buf 1 False 0 tree1 g1 \<and>
      fmlookup (rbroot tree1) 48 = Some 7 \<and>
      refcount (entries g1 7) = 1 \<and> handle (entries g1 7) = 5"
    by (simp add: zswap_eval)
  then obtain buf1 tree1 g1 where
    prep1: "zswap_store_prepare fill_tfm (plain_env 8 6) 0 (replicate PAGE_SIZE 66)
              zswap_one_entry = Store_insert 8 6 buf1 1 False 0 tree1 g1"
    and at1: "fmlookup (rbroot tree1) 48 = Some 7"
      "refcount (entries g1 7) = 1" "handle (entries g1 7) = 5"
    by blast
  have "\<exists>buf tree1 g1.
      zswap_store_prepare fill_tfm (busy_env 8 6) 0 (replicate PAGE_SIZE 66) zswap_one_entry =
        Store_insert 8 6 buf 1 True 0 tree1 g1 \<and>
      fmlookup (rbroot tree1) 48 = Some 7 \<and>
      refcount (entries g1 7) = 1 \<and> handle (entries g1 7) = 5"
    by (simp add: zswap_eval zswap_writeback_entries_loop_numeral upt_conv_Cons)
  then obtain buf2 tree2 g2 where
    prep2: "zswap_store_prepare fill_tfm (busy_env 8 6) 0 (replicate PAGE_SIZE 66)
              zswap_one_entry = Store_insert 8 6 buf2 1 True 0 tree2 g2"
    and at2: "fmlookup (rbroot tree2) 48 = Some 7"
      "refcount (entries g2 7) = 1" "handle (entries g2 7) = 5"
    by blast
  have "\<exists>buf tree1 g1.
      zswap_store_prepare fill_tfm (pressure_env 8 6) 0 (replicate PAGE_SIZE 66)
          zswap_one_entry =
        Store_insert 8 6 buf 1 True 0 tree1 g1 \<and>
      fmlookup (rbroot tree1) 48 \<noteq> Some 7"
    by (simp add: zswap_eval zswap_writeback_entries_loop_numeral upt_conv_Cons)
  then obtain buf3 tree3 g3 where
    prep3: "zswap_store_prepare fill_tfm (pressure_env 8 6) 0 (replicate PAGE_SIZE 66)
              zswap_one_entry = Store_insert 8 6 buf3 1 True 0 tree3 g3"
    and at3: "fmlookup (rbroot tree3) 48 \<noteq> Some 7"
    by blast
  from zswap_store_replaces_duplicate [OF tree dup prep1 fresh inverse fit page dst] at1 old
  have "\<exists>g' tree'. zswap_frontswap_store fill_tfm (plain_env 8 6) 0 48 (replicate PAGE_SIZE 66)
                  zswap_one_entry = Inr (0, g') \<and>
      zswap_trees g' 0 = Some tree' \<and>
      fmlookup (rbroot tree') 48 = Some 8 \<and>
      7 \<notin> set (lru tree') \<and>
      refcount (entries g' 7) = 0 \<and>
      7 \<notin> zswap_entry_cache g' \<and> 5 \<notin> allocated (pool tree') \<and>
      zswap_duplicate_entry g' = 1 \<and>
      (\<exists>g2. zswap_frontswap_load fill_tfm 0 48 (replicate PAGE_SIZE 0) g' =
         Inr (0, replicate PAGE_SIZE 66, g2))"
    by auto
  moreover
  from zswap_store_replaces_duplicate [OF tree dup prep2 fresh inverse fit page dst] at2 old
  have "\<exists>g' tree'. zswap_frontswap_store fill_tfm (busy_env 8 6) 0 48 (replicate PAGE_SIZE 66)
                  zswap_one_entry = Inr (0, g') \<and>
      zswap_trees g' 0 = Some tree' \<and>
      fmlookup (rbroot tree') 48 = Some 8 \<and>
      7 \<notin> set (lru tree') \<and>
      refcount (entries g' 7) = 0 \<and>
      7 \<notin> zswap_entry_cache g' \<and> 5 \<notin> allocated (pool tree') \<and>
      zswap_duplicate_entry g' = 1 \<and>
      (\<exists>g2. zswap_frontswap_load fill_tfm 0 48 (replicate PAGE_SIZE 0) g' =
         Inr (0, replicate PAGE_SIZE 66, g2))"
    by auto
  moreover
  from zswap_store_replaces_duplicate [OF tree dup prep3 fresh inverse fit page dst] at3 old
  have "\<exists>g' tree'. zswap_frontswap_store fill_tfm (pressure_env 8 6) 0 48
                  (replicate PAGE_SIZE 66) zswap_one_entry = Inr (0, g') \<and>
      zswap_trees g' 0 = Some tree' \<and>
      fmlookup (rbroot tree') 48 = Some 8 \<and>
      7 \<notin> set (lru tree') \<and>
      7 \<notin> zswap_entry_cache g' \<and>
      zswap_duplicate_entry g' = 0 \<and>
      (\<exists>g2. zswap_frontswap_load fill_tfm 0 48 (replicate PAGE_SIZE 0) g' =
         Inr (0, replicate PAGE_SIZE 66, g2))"
    by auto
  ultimately show ?thesis
    by blast
qed

text \<open>
  Claim C3 as first stated fails for a store that is not admitted. Area 0 holds
  entry 7 at offset \<^verbatim>\<open>0x30\<close>. A second store at that offset whose page does
  not compress is rejected with \<^verbatim>\<open>-E2BIG\<close>: the index still maps the offset
  to entry 7, which is on the LRU with its refcount of 1, and
  \<open>zswap_duplicate_entry\<close> is unchanged.
\<close>

theorem zswap_store_duplicate_rejected:
  "zswap_trees zswap_one_entry 0 = Some zswap_one_tree \<and>
   zswap_rb_search (rbroot zswap_one_tree) 48 = Some 7 \<and>
   (case zswap_frontswap_store copy_tfm (plain_env 8 6) 0 48 (replicate PAGE_SIZE 66)
           zswap_one_entry of
      Inl f \<Rightarrow> False
    | Inr (ret, g') \<Rightarrow>
        ret = - E2BIG \<and> zswap_trees g' 0 = Some zswap_one_tree \<and>
        refcount (entries g' 7) = 1 \<and>
        zswap_duplicate_entry g' = zswap_duplicate_entry zswap_one_entry)"
  by (simp add: zswap_eval)

end
